theory Spec2Isabelle
  imports Main "HOL-Library.Multiset"
begin

section \<open>Dates\<close>

text \<open>
  A JavaScript \<open>Date\<close> is modelled by its time value: milliseconds since the epoch, an
  \<open>int\<close>. The services read and write dates through the local-time methods
  \<open>setHours\<close>, \<open>getDay\<close>, \<open>getDate\<close> and \<open>setDate\<close>; the habit's own
  \<open>timezone\<close> field is passed around but never used. The process's local zone is modelled
  as a fixed offset \<open>tz\<close> (milliseconds east of UTC), the first argument of every function
  that reads local time. Daylight-saving transitions and the range limit of \<open>Date\<close> are
  outside the model.
\<close>

type_synonym Date = int

definition msPerDay :: int where
  "msPerDay = 86400000"

text \<open>The local calendar day of an instant, as a day number (day 0 is 1970-01-01).\<close>

definition localDay :: "int \<Rightarrow> Date \<Rightarrow> int" where
  "localDay tz t = (t + tz) div msPerDay"

text \<open>\<open>d.setHours(h, m, 0, 0)\<close>: same local day, local time \<open>h:m:00.000\<close>.\<close>

definition setHours :: "int \<Rightarrow> Date \<Rightarrow> int \<Rightarrow> int \<Rightarrow> Date" where
  "setHours tz t h m = localDay tz t * msPerDay + h * 3600000 + m * 60000 - tz"

text \<open>\<open>d.getDay()\<close>: 0 is Sunday; 1970-01-01 was a Thursday.\<close>

definition getDay :: "int \<Rightarrow> Date \<Rightarrow> int" where
  "getDay tz t = (localDay tz t + 4) mod 7"

text \<open>\<open>d.setDate(d.getDate() + n)\<close>: \<open>n\<close> local days later, same local time.\<close>

definition addDays :: "Date \<Rightarrow> int \<Rightarrow> Date" where
  "addDays t n = t + n * msPerDay"

section \<open>Strings\<close>

text \<open>
  Strings are byte lists. \<open>Number(s)\<close> is modelled on non-empty strings of ASCII decimal
  digits, where it is the decimal value; on every other string the model gives \<open>None\<close>.
\<close>

definition isDigit :: "char \<Rightarrow> bool" where
  "isDigit c = (c \<in> set ''0123456789'')"

definition digitVal :: "char \<Rightarrow> int" where
  "digitVal c = int (of_char c) - 48"

definition Number :: "string \<Rightarrow> int option" where
  "Number s =
     (if s \<noteq> [] \<and> list_all isDigit s
      then Some (foldl (\<lambda>acc c. acc * 10 + digitVal c) 0 s)
      else None)"

text \<open>\<open>s.split(sep)\<close> for a one-character separator.\<close>

fun split :: "char \<Rightarrow> string \<Rightarrow> string list" where
  "split sep [] = [[]]"
| "split sep (c # cs) =
     (if c = sep then [] # split sep cs
      else (case split sep cs of [] \<Rightarrow> [[c]] | p # ps \<Rightarrow> (c # p) # ps))"

text \<open>\<open>const [hours, minutes] = details.time.split(':').map(Number)\<close>\<close>

definition parseTime :: "string \<Rightarrow> (int \<times> int) option" where
  "parseTime t =
     (case map Number (split CHR '':'' t) of
        Some hours # Some minutes # _ \<Rightarrow> Some (hours, minutes)
      | _ \<Rightarrow> None)"

text \<open>ASCII white space, for \<open>trim\<close> and the class \<open>\s\<close>.\<close>

definition isSpace :: "char \<Rightarrow> bool" where
  "isSpace c = (of_char c \<in> {9, 10, 11, 12, 13, 32 :: nat})"

definition trim :: "string \<Rightarrow> string" where
  "trim s = rev (dropWhile isSpace (rev (dropWhile isSpace s)))"

section \<open>Entities\<close>

datatype HabitFrequencyType = DAILY | WEEKLY | CUSTOM

datatype HabitStatus = ACTIVE | PAUSED | ARCHIVED

text \<open>
  \<open>frequencyDetails\<close> is a JSON object that the services cast to the interface of the
  habit's frequency type. It is modelled as one record in which each field of the three
  interfaces is present with a value of its declared type, or absent (\<open>None\<close>). Numbers
  are integers.
\<close>

record FrequencyDetails =
  days :: "int list option"
  time :: "string option"
  count :: "int option"
  unit :: "string option"

text \<open>
  The \<open>Habit\<close> entity. Identifiers are opaque and modelled as naturals. Field names carry
  the prefix \<open>h_\<close>. \<open>updatedAt\<close> and \<open>version\<close> are maintained by the storage layer and
  read by no service; they are left out.
\<close>

record Habit =
  h_id :: nat
  h_userId :: nat
  h_name :: string
  h_description :: "string option"
  h_frequencyType :: HabitFrequencyType
  h_frequencyDetails :: FrequencyDetails
  h_durationMinutes :: "int option"
  h_status :: HabitStatus
  h_timezone :: string
  h_nextOccurrenceAt :: "Date option"
  h_createdAt :: Date
  h_deletedAt :: "Date option"

text \<open>
  The \<open>HabitCompletion\<close> entity, field names prefixed \<open>c_\<close>. \<open>createdAt\<close> is
  maintained by the storage layer and read by no service; it is left out.
\<close>

record HabitCompletion =
  c_id :: nat
  c_habitId :: nat
  c_userId :: nat
  c_completedAt :: Date
  c_scheduledFor :: Date
  c_notes :: "string option"
  c_undoneAt :: "Date option"

section \<open>Errors\<close>

text \<open>
  The services throw the NestJS exceptions \<open>NotFoundException\<close>,
  \<open>BadRequestException\<close> and \<open>ConflictException\<close>, each with a message. Three further
  outcomes are values of the model:
  \<^item> \<open>MalformedDetails\<close>: the stored \<open>frequencyDetails\<close> lacks a field that the cast
    assumes, or its \<open>time\<close> is not of the form digits\<open>:\<close>digits. The source then throws a
    \<open>TypeError\<close> or computes with \<open>NaN\<close> and an invalid date.
  \<^item> \<open>TypeError\<close>: a non-null assertion (\<open>updatedHabit!\<close>) meets \<open>null\<close>.
  \<^item> \<open>Diverges\<close>: a loop of the source does not terminate.
\<close>

datatype error =
    NotFoundException string
  | BadRequestException string
  | ConflictException string
  | MalformedDetails
  | TypeError
  | Diverges

section \<open>HabitValidationService\<close>

text \<open>The regular expression \<open>/^([01]\d|2[0-3]):([0-5]\d)$/\<close>.\<close>

definition isValidTimeFormat :: "string \<Rightarrow> bool" where
  "isValidTimeFormat t =
     (case t of
        [a, b, c, d, e] \<Rightarrow>
          ((a \<in> set ''01'' \<and> isDigit b) \<or> (a = CHR ''2'' \<and> b \<in> set ''0123''))
          \<and> c = CHR '':'' \<and> d \<in> set ''012345'' \<and> isDigit e
      | _ \<Rightarrow> False)"

definition validateHabitName :: "string \<Rightarrow> error + unit" where
  "validateHabitName name =
     (if name = [] \<or> length (trim name) = 0
        then Inl (BadRequestException ''Habit name is required'')
      else if length (trim name) > 100
        then Inl (BadRequestException ''Habit name must not exceed 100 characters'')
      else if name \<noteq> [] \<and> list_all isSpace name
        then Inl (BadRequestException ''Habit name cannot be whitespace only'')
      else Inr ())"

definition validateDescription :: "string \<Rightarrow> error + unit" where
  "validateDescription description =
     (if description \<noteq> [] \<and> length description > 500
        then Inl (BadRequestException ''Description must not exceed 500 characters'')
      else Inr ())"

definition validateDuration :: "int \<Rightarrow> error + unit" where
  "validateDuration durationMinutes =
     (if durationMinutes < 5
        then Inl (BadRequestException ''Duration must be at least 5 minutes'')
      else if durationMinutes > 480
        then Inl (BadRequestException ''Duration must not exceed 480 minutes'')
      else Inr ())"

text \<open>\<open>!details.time\<close> holds when the field is absent or the empty string.\<close>

definition validateDailyFrequency :: "FrequencyDetails \<Rightarrow> error + unit" where
  "validateDailyFrequency details =
     (case time details of
        None \<Rightarrow> Inl (BadRequestException ''Time is required for daily habits'')
      | Some t \<Rightarrow>
          if t = [] then Inl (BadRequestException ''Time is required for daily habits'')
          else if \<not> isValidTimeFormat t
            then Inl (BadRequestException ''Time must be in HH:mm format'')
          else Inr ())"

definition validateWeeklyFrequency :: "FrequencyDetails \<Rightarrow> error + unit" where
  "validateWeeklyFrequency details =
     (case days details of
        None \<Rightarrow>
          Inl (BadRequestException ''At least one day must be selected for weekly habits'')
      | Some ds \<Rightarrow>
          if length ds = 0
            then Inl (BadRequestException
                        ''At least one day must be selected for weekly habits'')
          else if list_ex (\<lambda>day. day < 0 \<or> day > 6) ds
            then Inl (BadRequestException
                        ''Days must be numbers between 0 (Sunday) and 6 (Saturday)'')
          else (case time details of
                  None \<Rightarrow> Inl (BadRequestException ''Time is required for weekly habits'')
                | Some t \<Rightarrow>
                    if t = []
                      then Inl (BadRequestException ''Time is required for weekly habits'')
                    else if \<not> isValidTimeFormat t
                      then Inl (BadRequestException ''Time must be in HH:mm format'')
                    else Inr ()))"

text \<open>\<open>!details.count\<close> holds when the field is absent or 0.\<close>

definition validateCustomFrequency :: "FrequencyDetails \<Rightarrow> error + unit" where
  "validateCustomFrequency details =
     (case count details of
        None \<Rightarrow> Inl (BadRequestException ''Count is required for custom habits'')
      | Some n \<Rightarrow>
          if n = 0 then Inl (BadRequestException ''Count is required for custom habits'')
          else if n < 1 \<or> n > 365
            then Inl (BadRequestException ''Count must be between 1 and 365'')
          else if (case unit details of
                     None \<Rightarrow> True
                   | Some u \<Rightarrow> u = [] \<or> u \<notin> set [''days'', ''weeks''])
            then Inl (BadRequestException ''Unit must be \"days\" or \"weeks\"'')
          else (case time details of
                  None \<Rightarrow> Inl (BadRequestException ''Time is required for custom habits'')
                | Some t \<Rightarrow>
                    if t = []
                      then Inl (BadRequestException ''Time is required for custom habits'')
                    else if \<not> isValidTimeFormat t
                      then Inl (BadRequestException ''Time must be in HH:mm format'')
                    else Inr ()))"

text \<open>
  \<open>validateFrequency\<close>. The details object is always present here; the \<open>default\<close> branch
  of the \<open>switch\<close> is unreachable for a value of the enumeration.
\<close>

definition validateFrequency :: "HabitFrequencyType \<Rightarrow> FrequencyDetails \<Rightarrow> error + unit" where
  "validateFrequency type details =
     (case type of
        DAILY \<Rightarrow> validateDailyFrequency details
      | WEEKLY \<Rightarrow> validateWeeklyFrequency details
      | CUSTOM \<Rightarrow> validateCustomFrequency details)"

section \<open>HabitScheduleService\<close>

definition getNextDailyOccurrence :: "int \<Rightarrow> FrequencyDetails \<Rightarrow> Date \<Rightarrow> error + Date" where
  "getNextDailyOccurrence tz details now =
     (case Option.bind (time details) parseTime of
        None \<Rightarrow> Inl MalformedDetails
      | Some (hours, minutes) \<Rightarrow>
          let today = setHours tz now hours minutes in
          if today > now then Inr today
          else Inr (addDays today 1))"

definition getNextWeeklyOccurrence :: "int \<Rightarrow> FrequencyDetails \<Rightarrow> Date \<Rightarrow> error + Date" where
  "getNextWeeklyOccurrence tz details now =
     (case (Option.bind (time details) parseTime, days details) of
        (Some (hours, minutes), Some ds) \<Rightarrow>
          let sortedDays = sort ds;
              currentDay = getDay tz now
          in
          if currentDay \<in> set sortedDays \<and> setHours tz now hours minutes > now
            then Inr (setHours tz now hours minutes)
          else (case find (\<lambda>day. day > currentDay) sortedDays of
                  Some day \<Rightarrow>
                    Inr (setHours tz (addDays now (day - currentDay)) hours minutes)
                | None \<Rightarrow>
                    (case sortedDays of
                       [] \<Rightarrow> Inl MalformedDetails
                     | firstDayNextWeek # _ \<Rightarrow>
                         Inr (setHours tz (addDays now (7 - currentDay + firstDayNextWeek))
                                hours minutes)))
      | _ \<Rightarrow> Inl MalformedDetails)"

text \<open>
  The loop \<open>while (nextOccurrence <= now) nextOccurrence.setDate(... + intervalDays)\<close>.
  It need not terminate, so it is a partial function: \<open>None\<close> means that it runs forever.
\<close>

partial_function (option) stepPastNow :: "Date \<Rightarrow> Date \<Rightarrow> int \<Rightarrow> Date option" where
  "stepPastNow nextOccurrence now intervalDays =
     (if nextOccurrence \<le> now
      then stepPastNow (addDays nextOccurrence intervalDays) now intervalDays
      else Some nextOccurrence)"

declare stepPastNow.simps [code]

definition intervalDaysOf :: "int \<Rightarrow> string option \<Rightarrow> int" where
  "intervalDaysOf n u = (if u = Some ''weeks'' then n * 7 else n)"

definition getNextCustomOccurrence :: "int \<Rightarrow> Habit \<Rightarrow> Date \<Rightarrow> error + Date" where
  "getNextCustomOccurrence tz habit now =
     (let details = h_frequencyDetails habit in
      case (Option.bind (time details) parseTime, count details) of
        (Some (hours, minutes), Some n) \<Rightarrow>
          let startDate = (case h_nextOccurrenceAt habit of
                             Some d \<Rightarrow> d | None \<Rightarrow> h_createdAt habit);
              intervalDays = intervalDaysOf n (unit details)
          in (case stepPastNow (setHours tz startDate hours minutes) now intervalDays of
                None \<Rightarrow> Inl Diverges
              | Some d \<Rightarrow> Inr d)
      | _ \<Rightarrow> Inl MalformedDetails)"

text \<open>\<open>getNextOccurrence\<close> returns \<open>null\<close> (\<open>None\<close>) for a habit that is not active.\<close>

definition getNextOccurrence :: "int \<Rightarrow> Habit \<Rightarrow> Date \<Rightarrow> error + Date option" where
  "getNextOccurrence tz habit now =
     (if h_status habit \<noteq> ACTIVE then Inr None
      else map_sum id Some
        (case h_frequencyType habit of
           DAILY \<Rightarrow> getNextDailyOccurrence tz (h_frequencyDetails habit) now
         | WEEKLY \<Rightarrow> getNextWeeklyOccurrence tz (h_frequencyDetails habit) now
         | CUSTOM \<Rightarrow> getNextCustomOccurrence tz habit now))"

text \<open>
  \<open>Math.floor((checkDate.getTime() - startDate.getTime()) / (1000 * 60 * 60 * 24))\<close>,
  the number of whole periods of 24 hours between two instants.
\<close>

definition floorDays :: "Date \<Rightarrow> Date \<Rightarrow> int" where
  "floorDays startDate checkDate = (checkDate - startDate) div msPerDay"

text \<open>
  \<open>isCustomScheduledForDate\<close>. With an absent \<open>count\<close>, or an interval of 0, the
  remainder is \<open>NaN\<close> and the comparison is false. The remainder of a non-negative
  dividend is 0 exactly when the divisor divides it, whatever its sign. The two instants
  given to \<open>floorDays\<close> are local midnights; at a fixed offset they are a whole number
  of days apart.
\<close>

definition isCustomScheduledForDate :: "int \<Rightarrow> Habit \<Rightarrow> Date \<Rightarrow> bool" where
  "isCustomScheduledForDate tz habit date =
     (let details = h_frequencyDetails habit in
      case count details of
        None \<Rightarrow> False
      | Some n \<Rightarrow>
          let intervalDays = intervalDaysOf n (unit details);
              startDate = setHours tz (h_createdAt habit) 0 0;
              checkDate = setHours tz date 0 0;
              daysDiff = floorDays startDate checkDate
          in daysDiff \<ge> 0 \<and> intervalDays \<noteq> 0 \<and> daysDiff mod intervalDays = 0)"

definition isScheduledForDate :: "int \<Rightarrow> Habit \<Rightarrow> Date \<Rightarrow> error + bool" where
  "isScheduledForDate tz habit date =
     (if h_status habit \<noteq> ACTIVE then Inr False
      else (case h_frequencyType habit of
              DAILY \<Rightarrow> Inr True
            | WEEKLY \<Rightarrow>
                (case days (h_frequencyDetails habit) of
                   None \<Rightarrow> Inl MalformedDetails
                 | Some ds \<Rightarrow> Inr (getDay tz date \<in> set ds))
            | CUSTOM \<Rightarrow> Inr (isCustomScheduledForDate tz habit date)))"

section \<open>Storage\<close>

text \<open>
  The two tables, as lists of rows, and the counter from which the storage layer draws the
  identifier of a new completion. The event publisher is fire-and-forget and has no
  effect on either table; it is not modelled.
\<close>

record State =
  habits :: "Habit list"
  completions :: "HabitCompletion list"
  nextCompletionId :: nat

subsection \<open>HabitRepository\<close>

definition findById :: "State \<Rightarrow> nat \<Rightarrow> Habit option" where
  "findById st habitId =
     find (\<lambda>h. h_id h = habitId \<and> h_deletedAt h = None) (habits st)"

definition findByIdAndUser :: "State \<Rightarrow> nat \<Rightarrow> nat \<Rightarrow> Habit option" where
  "findByIdAndUser st habitId userId =
     find (\<lambda>h. h_id h = habitId \<and> h_userId h = userId \<and> h_deletedAt h = None) (habits st)"

text \<open>
  \<open>Partial<Habit>\<close>: each field is absent (\<open>None\<close>) or carries the new value; for a
  nullable column the new value may be \<open>null\<close> (\<open>Some None\<close>).
\<close>

record HabitUpdates =
  u_name :: "string option"
  u_description :: "string option option"
  u_frequencyType :: "HabitFrequencyType option"
  u_frequencyDetails :: "FrequencyDetails option"
  u_durationMinutes :: "int option option"
  u_status :: "HabitStatus option"
  u_nextOccurrenceAt :: "Date option option"

definition noUpdates :: HabitUpdates where
  "noUpdates =
     \<lparr>u_name = None, u_description = None, u_frequencyType = None,
      u_frequencyDetails = None, u_durationMinutes = None, u_status = None,
      u_nextOccurrenceAt = None\<rparr>"

definition applyUpdates :: "HabitUpdates \<Rightarrow> Habit \<Rightarrow> Habit" where
  "applyUpdates u h =
     h\<lparr>h_name := (case u_name u of None \<Rightarrow> h_name h | Some v \<Rightarrow> v),
       h_description := (case u_description u of None \<Rightarrow> h_description h | Some v \<Rightarrow> v),
       h_frequencyType :=
         (case u_frequencyType u of None \<Rightarrow> h_frequencyType h | Some v \<Rightarrow> v),
       h_frequencyDetails :=
         (case u_frequencyDetails u of None \<Rightarrow> h_frequencyDetails h | Some v \<Rightarrow> v),
       h_durationMinutes :=
         (case u_durationMinutes u of None \<Rightarrow> h_durationMinutes h | Some v \<Rightarrow> v),
       h_status := (case u_status u of None \<Rightarrow> h_status h | Some v \<Rightarrow> v),
       h_nextOccurrenceAt :=
         (case u_nextOccurrenceAt u of None \<Rightarrow> h_nextOccurrenceAt h | Some v \<Rightarrow> v)\<rparr>"

text \<open>\<open>update\<close>: write the fields to the row with this identifier, then \<open>findById\<close>.\<close>

definition updateHabitRow :: "State \<Rightarrow> nat \<Rightarrow> HabitUpdates \<Rightarrow> State \<times> Habit option" where
  "updateHabitRow st habitId updates =
     (let st' = st\<lparr>habits :=
                 map (\<lambda>h. if h_id h = habitId then applyUpdates updates h else h) (habits st)\<rparr>
      in (st', findById st' habitId))"

subsection \<open>HabitCompletionRepository\<close>

text \<open>
  The column \<open>scheduledFor\<close> has the SQL type \<open>date\<close>: equality on it is equality of
  calendar dates.
\<close>

definition findCompletionByIdAndUser :: "State \<Rightarrow> nat \<Rightarrow> nat \<Rightarrow> HabitCompletion option" where
  "findCompletionByIdAndUser st completionId userId =
     find (\<lambda>c. c_id c = completionId \<and> c_userId c = userId) (completions st)"

definition isCompletedForDate :: "int \<Rightarrow> State \<Rightarrow> nat \<Rightarrow> Date \<Rightarrow> bool" where
  "isCompletedForDate tz st habitId date =
     (length (filter (\<lambda>c. c_habitId c = habitId
                          \<and> localDay tz (c_scheduledFor c) = localDay tz date
                          \<and> c_undoneAt c = None) (completions st)) > 0)"

definition createCompletion ::
  "State \<Rightarrow> nat \<Rightarrow> nat \<Rightarrow> Date \<Rightarrow> Date \<Rightarrow> string option \<Rightarrow> State \<times> HabitCompletion" where
  "createCompletion st habitId userId completedAt scheduledFor notes =
     (let completion =
            \<lparr>c_id = nextCompletionId st, c_habitId = habitId, c_userId = userId,
             c_completedAt = completedAt, c_scheduledFor = scheduledFor, c_notes = notes,
             c_undoneAt = None\<rparr>
      in (st\<lparr>completions := completions st @ [completion],
              nextCompletionId := Suc (nextCompletionId st)\<rparr>, completion))"

definition markUndone :: "State \<Rightarrow> nat \<Rightarrow> Date \<Rightarrow> State" where
  "markUndone st completionId now =
     st\<lparr>completions :=
          map (\<lambda>c. if c_id c = completionId then c\<lparr>c_undoneAt := Some now\<rparr> else c)
            (completions st)\<rparr>"


section \<open>HabitService\<close>

record UpdateHabitDto =
  dto_name :: "string option"
  dto_description :: "string option option"
  dto_frequencyType :: "HabitFrequencyType option"
  dto_frequencyDetails :: "FrequencyDetails option"
  dto_durationMinutes :: "int option option"
  dto_status :: "HabitStatus option"
  dto_timezone :: "string option"

definition getHabitById :: "State \<Rightarrow> nat \<Rightarrow> nat \<Rightarrow> error + Habit" where
  "getHabitById st userId habitId =
     (case findByIdAndUser st habitId userId of
        None \<Rightarrow> Inl (NotFoundException ''Habit not found'')
      | Some habit \<Rightarrow> Inr habit)"

text \<open>Sequencing of two checks: the first exception thrown is the one that propagates.\<close>

definition andThen :: "error + unit \<Rightarrow> error + unit \<Rightarrow> error + unit" where
  "andThen a b = (case a of Inl e \<Rightarrow> Inl e | Inr _ \<Rightarrow> b)"

text \<open>The block ``Validate updates'' of \<open>updateHabit\<close>.\<close>

definition validateUpdates :: "Habit \<Rightarrow> UpdateHabitDto \<Rightarrow> error + unit" where
  "validateUpdates habit dto =
     andThen (case dto_name dto of None \<Rightarrow> Inr () | Some n \<Rightarrow> validateHabitName n)
    (andThen (case dto_description dto of
                Some (Some d) \<Rightarrow> validateDescription d
              | _ \<Rightarrow> Inr ())
    (andThen (if dto_frequencyType dto \<noteq> None \<or> dto_frequencyDetails dto \<noteq> None
              then validateFrequency
                     (case dto_frequencyType dto of
                        Some t \<Rightarrow> t | None \<Rightarrow> h_frequencyType habit)
                     (case dto_frequencyDetails dto of
                        Some d \<Rightarrow> d | None \<Rightarrow> h_frequencyDetails habit)
              else Inr ())
             (case dto_durationMinutes dto of
                Some (Some m) \<Rightarrow> validateDuration m
              | _ \<Rightarrow> Inr ())))"

text \<open>\<open>s?.trim() || null\<close>\<close>

definition trimOrNull :: "string option \<Rightarrow> string option" where
  "trimOrNull s =
     (case s of None \<Rightarrow> None | Some v \<Rightarrow> if trim v = [] then None else Some (trim v))"

text \<open>The block ``Build updates'' of \<open>updateHabit\<close>. \<open>dto.timezone\<close> is not copied.\<close>

definition buildUpdates :: "UpdateHabitDto \<Rightarrow> HabitUpdates" where
  "buildUpdates dto =
     \<lparr>u_name = map_option trim (dto_name dto),
      u_description = map_option trimOrNull (dto_description dto),
      u_frequencyType = dto_frequencyType dto,
      u_frequencyDetails = dto_frequencyDetails dto,
      u_durationMinutes = dto_durationMinutes dto,
      u_status = dto_status dto,
      u_nextOccurrenceAt = None\<rparr>"

text \<open>
  Every operation of a service takes the state and the reading \<open>now\<close> of the clock, and
  returns its result or exception together with the state it leaves behind.
\<close>

definition updateHabit ::
  "int \<Rightarrow> State \<Rightarrow> nat \<Rightarrow> nat \<Rightarrow> UpdateHabitDto \<Rightarrow> Date \<Rightarrow> (error + Habit) \<times> State" where
  "updateHabit tz st userId habitId dto now =
     (case getHabitById st userId habitId of
        Inl e \<Rightarrow> (Inl e, st)
      | Inr habit \<Rightarrow>
          (case validateUpdates habit dto of
             Inl e \<Rightarrow> (Inl e, st)
           | Inr _ \<Rightarrow>
               (case updateHabitRow st habitId (buildUpdates dto) of
                  (st1, None) \<Rightarrow> (Inl TypeError, st1)
                | (st1, Some updatedHabit) \<Rightarrow>
                    let frequencyChanged =
                          (dto_frequencyType dto \<noteq> None \<or> dto_frequencyDetails dto \<noteq> None);
                        recalculated =
                          (if frequencyChanged \<and> h_status updatedHabit = ACTIVE
                           then (case getNextOccurrence tz updatedHabit now of
                                   Inl e \<Rightarrow> Inl e
                                 | Inr nextOccurrence \<Rightarrow>
                                     Inr (fst (updateHabitRow st1 habitId
                                       (noUpdates\<lparr>u_nextOccurrenceAt := Some nextOccurrence\<rparr>))))
                           else Inr st1)
                    in (case recalculated of
                          Inl e \<Rightarrow> (Inl e, st1)
                        | Inr st2 \<Rightarrow>
                            (case findById st2 habitId of
                               None \<Rightarrow> (Inl TypeError, st2)
                             | Some finalHabit \<Rightarrow> (Inr finalHabit, st2))))))"

definition pauseHabit :: "State \<Rightarrow> nat \<Rightarrow> nat \<Rightarrow> (error + Habit) \<times> State" where
  "pauseHabit st userId habitId =
     (case getHabitById st userId habitId of
        Inl e \<Rightarrow> (Inl e, st)
      | Inr habit \<Rightarrow>
          if h_status habit = PAUSED then (Inr habit, st)
          else if h_status habit = ARCHIVED
            then (Inl (ConflictException ''Cannot pause an archived habit''), st)
          else (case updateHabitRow st habitId
                       (noUpdates\<lparr>u_status := Some PAUSED, u_nextOccurrenceAt := Some None\<rparr>) of
                  (st1, None) \<Rightarrow> (Inl TypeError, st1)
                | (st1, Some updated) \<Rightarrow> (Inr updated, st1)))"

definition resumeHabit ::
  "int \<Rightarrow> State \<Rightarrow> nat \<Rightarrow> nat \<Rightarrow> Date \<Rightarrow> (error + Habit) \<times> State" where
  "resumeHabit tz st userId habitId now =
     (case getHabitById st userId habitId of
        Inl e \<Rightarrow> (Inl e, st)
      | Inr habit \<Rightarrow>
          if h_status habit = ACTIVE then (Inr habit, st)
          else if h_status habit = ARCHIVED
            then (Inl (ConflictException ''Cannot resume an archived habit''), st)
          else (case getNextOccurrence tz habit now of
                  Inl e \<Rightarrow> (Inl e, st)
                | Inr nextOccurrence \<Rightarrow>
                    (case updateHabitRow st habitId
                            (noUpdates\<lparr>u_status := Some ACTIVE,
                                       u_nextOccurrenceAt := Some nextOccurrence\<rparr>) of
                       (st1, None) \<Rightarrow> (Inl TypeError, st1)
                     | (st1, Some updated) \<Rightarrow> (Inr updated, st1))))"

section \<open>HabitCompletionService\<close>

text \<open>
  \<open>CreateCompletionDto\<close>. Its \<open>scheduledFor\<close> is a date string, and the first step of
  \<open>markComplete\<close> is \<open>new Date(dto.scheduledFor)\<close>. The record holds the instant that
  this step yields. For a date-only string \<open>YYYY-MM-DD\<close>, the form that the DTO asks
  for, \<open>newDateFromDateOnly\<close> is that step: the string is given by the number of its
  day (day 0 is 1970-01-01), and a date-only form is parsed as midnight UTC of that day,
  whatever the zone of the process.
\<close>

definition newDateFromDateOnly :: "int \<Rightarrow> Date" where
  "newDateFromDateOnly day = day * msPerDay"

record CreateCompletionDto =
  dto_scheduledFor :: Date
  dto_notes :: "string option"

definition UNDO_WINDOW_HOURS :: int where
  "UNDO_WINDOW_HOURS = 24"

definition markComplete ::
  "int \<Rightarrow> State \<Rightarrow> nat \<Rightarrow> nat \<Rightarrow> CreateCompletionDto \<Rightarrow> Date
     \<Rightarrow> (error + HabitCompletion) \<times> State" where
  "markComplete tz st habitId userId dto now =
     (case findByIdAndUser st habitId userId of
        None \<Rightarrow> (Inl (NotFoundException ''Habit not found''), st)
      | Some habit \<Rightarrow>
          if h_status habit \<noteq> ACTIVE
            then (Inl (BadRequestException ''Cannot complete a paused or archived habit''), st)
          else
            let scheduledFor = dto_scheduledFor dto;
                today = setHours tz now 0 0;
                scheduledDate = setHours tz scheduledFor 0 0
            in
            if scheduledDate > today
              then (Inl (BadRequestException ''Cannot complete a habit for a future date''), st)
            else if isCompletedForDate tz st habitId scheduledFor
              then (Inl (ConflictException ''Habit already completed for this date''), st)
            else
              (case createCompletion st habitId userId now scheduledFor
                      (trimOrNull (dto_notes dto)) of
                 (st1, completion) \<Rightarrow>
                   (case getNextOccurrence tz habit now of
                      Inl e \<Rightarrow> (Inl e, st1)
                    | Inr None \<Rightarrow> (Inr completion, st1)
                    | Inr (Some nextOccurrence) \<Rightarrow>
                        (Inr completion,
                         fst (updateHabitRow st1 habitId
                           (noUpdates\<lparr>u_nextOccurrenceAt := Some (Some nextOccurrence)\<rparr>))))))"

text \<open>
  \<open>undoCompletion\<close>. The source compares the floating-point quotient
  \<open>(now - completedAt) / 3600000\<close> with 24; for integer time values the quotient exceeds
  24 exactly when the difference exceeds \<open>24 * 3600000\<close>.
\<close>

definition undoCompletion ::
  "State \<Rightarrow> nat \<Rightarrow> nat \<Rightarrow> Date \<Rightarrow> (error + unit) \<times> State" where
  "undoCompletion st completionId userId now =
     (case findCompletionByIdAndUser st completionId userId of
        None \<Rightarrow> (Inl (NotFoundException ''Completion not found''), st)
      | Some completion \<Rightarrow>
          if c_undoneAt completion \<noteq> None
            then (Inl (BadRequestException ''Completion already undone''), st)
          else if now - c_completedAt completion > UNDO_WINDOW_HOURS * 3600000
            then (Inl (BadRequestException ''Cannot undo completion after 24 hours''), st)
          else (Inr (), markUndone st completionId now))"

section \<open>HabitStreakService\<close>









section \<open>Notions used in the statements\<close>

text \<open>
  The HTTP status under which the global exception filter surfaces an exception: the
  status of an \<open>HttpException\<close>, and 500 for any other error. A call that does not
  return surfaces nothing.
\<close>

fun statusCode :: "error \<Rightarrow> nat option" where
  "statusCode (NotFoundException _) = Some 404"
| "statusCode (BadRequestException _) = Some 400"
| "statusCode (ConflictException _) = Some 409"
| "statusCode MalformedDetails = Some 500"
| "statusCode TypeError = Some 500"
| "statusCode Diverges = None"

text \<open>
  A habit's rule is valid when \<open>validateFrequency\<close> accepts its frequency type and
  details, as it has for every habit that \<open>createHabit\<close> or \<open>updateHabit\<close> stored.
\<close>

definition validRule :: "Habit \<Rightarrow> bool" where
  "validRule habit =
     (validateFrequency (h_frequencyType habit) (h_frequencyDetails habit) = Inr ())"

text \<open>
  The persisted \<open>nextOccurrenceAt\<close> of a habit is aligned when it is \<open>null\<close> or falls on
  a date that \<open>isCustomScheduledForDate\<close> accepts.
\<close>

definition nextOccurrenceAligned :: "int \<Rightarrow> Habit \<Rightarrow> bool" where
  "nextOccurrenceAligned tz habit =
     (case h_nextOccurrenceAt habit of
        None \<Rightarrow> True
      | Some a \<Rightarrow> isCustomScheduledForDate tz habit a)"

text \<open>
  The rules of the Frequency Validator as the specification lists them (section 4.1),
  each violated rule named by the message that the source has for it, in the order of the
  source: DAILY requires a time matching \<open>HH:mm\<close>; WEEKLY requires at least one day,
  every day in 0..6, and a valid time; CUSTOM requires a count in 1..365, a unit among
  \<open>days\<close> and \<open>weeks\<close>, and a valid time.
\<close>

definition spec_timeViolations :: "string \<Rightarrow> FrequencyDetails \<Rightarrow> string list" where
  "spec_timeViolations required details =
     (case time details of
        None \<Rightarrow> [required]
      | Some t \<Rightarrow>
          if t = [] then [required]
          else if isValidTimeFormat t then []
          else [''Time must be in HH:mm format''])"

definition spec_violatedRules :: "HabitFrequencyType \<Rightarrow> FrequencyDetails \<Rightarrow> string list" where
  "spec_violatedRules type details =
     (case type of
        DAILY \<Rightarrow> spec_timeViolations ''Time is required for daily habits'' details
      | WEEKLY \<Rightarrow>
          (if days details = None \<or> days details = Some []
           then [''At least one day must be selected for weekly habits''] else [])
          @ (case days details of
               None \<Rightarrow> []
             | Some ds \<Rightarrow>
                 if list_ex (\<lambda>day. day < 0 \<or> day > 6) ds
                 then [''Days must be numbers between 0 (Sunday) and 6 (Saturday)'']
                 else [])
          @ spec_timeViolations ''Time is required for weekly habits'' details
      | CUSTOM \<Rightarrow>
          (case count details of
             None \<Rightarrow> [''Count is required for custom habits'']
           | Some n \<Rightarrow>
               if n = 0 then [''Count is required for custom habits'']
               else if n < 1 \<or> n > 365 then [''Count must be between 1 and 365'']
               else [])
          @ (if unit details = Some ''days'' \<or> unit details = Some ''weeks''
             then [] else [''Unit must be \"days\" or \"weeks\"''])
          @ spec_timeViolations ''Time is required for custom habits'' details)"

text \<open>The rules that a result of the validator reports: the message of its exception.\<close>

definition reportedRules :: "error + unit \<Rightarrow> string list" where
  "reportedRules r = (case r of Inl (BadRequestException m) \<Rightarrow> [m] | _ \<Rightarrow> [])"

section \<open>Example data\<close>

definition dailyDetails :: FrequencyDetails where
  "dailyDetails = \<lparr>days = None, time = Some ''07:00'', count = None, unit = None\<rparr>"

definition weeklyDetails :: FrequencyDetails where
  "weeklyDetails = \<lparr>days = Some [1, 3, 5], time = Some ''08:00'', count = None, unit = None\<rparr>"

definition customDetails :: FrequencyDetails where
  "customDetails =
     \<lparr>days = None, time = Some ''07:00'', count = Some 3, unit = Some ''days''\<rparr>"

text \<open>An active habit of user 7, created at the epoch.\<close>

definition exHabit :: "HabitFrequencyType \<Rightarrow> FrequencyDetails \<Rightarrow> Date option \<Rightarrow> Habit" where
  "exHabit type details nextAt =
     \<lparr>h_id = 1, h_userId = 7, h_name = ''Read'', h_description = None,
      h_frequencyType = type, h_frequencyDetails = details, h_durationMinutes = None,
      h_status = ACTIVE, h_timezone = ''UTC'', h_nextOccurrenceAt = nextAt,
      h_createdAt = 0, h_deletedAt = None\<rparr>"

definition exState :: "Habit \<Rightarrow> HabitCompletion list \<Rightarrow> State" where
  "exState habit cs = \<lparr>habits = [habit], completions = cs, nextCompletionId = length cs\<rparr>"

definition exCompletion :: "nat \<Rightarrow> Date \<Rightarrow> Date \<Rightarrow> Date option \<Rightarrow> HabitCompletion" where
  "exCompletion completionId completedAt scheduledFor undoneAt =
     \<lparr>c_id = completionId, c_habitId = 1, c_userId = 7, c_completedAt = completedAt,
      c_scheduledFor = scheduledFor, c_notes = None, c_undoneAt = undoneAt\<rparr>"

definition statusOnly :: "HabitStatus \<Rightarrow> UpdateHabitDto" where
  "statusOnly s =
     \<lparr>dto_name = None, dto_description = None, dto_frequencyType = None,
      dto_frequencyDetails = None, dto_durationMinutes = None, dto_status = Some s,
      dto_timezone = None\<rparr>"

definition exDto :: "Date \<Rightarrow> CreateCompletionDto" where
  "exDto scheduledFor = \<lparr>dto_scheduledFor = scheduledFor, dto_notes = None\<rparr>"

section \<open>Dates and times: auxiliary facts\<close>

lemma msPerDay_pos: "0 < msPerDay"
  by (simp add: msPerDay_def)

lemma localDay_lower: "localDay tz t * msPerDay - tz \<le> t"
proof -
  have "0 \<le> (t + tz) mod msPerDay"
    by (rule pos_mod_sign) (rule msPerDay_pos)
  moreover have "(t + tz) div msPerDay * msPerDay + (t + tz) mod msPerDay = t + tz"
    by (rule div_mult_mod_eq)
  ultimately show ?thesis unfolding localDay_def by linarith
qed

lemma localDay_upper: "t < localDay tz t * msPerDay - tz + msPerDay"
proof -
  have "(t + tz) mod msPerDay < msPerDay"
    by (rule pos_mod_bound) (rule msPerDay_pos)
  moreover have "(t + tz) div msPerDay * msPerDay + (t + tz) mod msPerDay = t + tz"
    by (rule div_mult_mod_eq)
  ultimately show ?thesis unfolding localDay_def by linarith
qed

lemma localDay_addDays: "localDay tz (addDays t n) = localDay tz t + n"
proof -
  have nz: "msPerDay \<noteq> 0" using msPerDay_pos by simp
  have a: "(t + tz + n * msPerDay) div msPerDay = (t + tz) div msPerDay + n"
    using nz by simp
  have b: "addDays t n + tz = t + tz + n * msPerDay"
    unfolding addDays_def by simp
  show ?thesis by (simp only: localDay_def a b)
qed

lemma localDay_unique:
  assumes "d * msPerDay \<le> t + tz" "t + tz < d * msPerDay + msPerDay"
  shows "localDay tz t = d"
proof -
  have "(t + tz) div msPerDay = d"
    using assms msPerDay_pos
    by (intro int_div_pos_eq[of "t + tz" msPerDay d "t + tz - d * msPerDay"]) (simp_all add: mult.commute)
  thus ?thesis unfolding localDay_def .
qed

lemma localDay_setHours:
  assumes "0 \<le> h" "h < 24" "0 \<le> m" "m < 60"
  shows "localDay tz (setHours tz t h m) = localDay tz t"
proof (rule localDay_unique)
  have r: "0 \<le> h * 3600000 + m * 60000" "h * 3600000 + m * 60000 < msPerDay"
    using assms unfolding msPerDay_def by auto
  show "localDay tz t * msPerDay \<le> setHours tz t h m + tz"
    using r(1) unfolding setHours_def by simp
  show "setHours tz t h m + tz < localDay tz t * msPerDay + msPerDay"
    using r(2) unfolding setHours_def by simp
qed

lemma setHours_lower:
  assumes "0 \<le> h" "0 \<le> m"
  shows "localDay tz t * msPerDay - tz \<le> setHours tz t h m"
  using assms unfolding setHours_def by simp


lemma digit_cases: "isDigit c \<Longrightarrow> 0 \<le> digitVal c \<and> digitVal c \<le> 9"
  unfolding isDigit_def digitVal_def by auto

lemma isDigit_not_colon: "isDigit c \<Longrightarrow> c \<noteq> CHR '':''"
  unfolding isDigit_def by auto

lemma split_two:
  "a \<noteq> s \<Longrightarrow> b \<noteq> s \<Longrightarrow> d \<noteq> s \<Longrightarrow> e \<noteq> s \<Longrightarrow> split s [a, b, s, d, e] = [[a, b], [d, e]]"
  by simp

lemma Number_two:
  "isDigit a \<Longrightarrow> isDigit b \<Longrightarrow> Number [a, b] = Some (digitVal a * 10 + digitVal b)"
  unfolding Number_def by simp


lemma valid_time_shape:
  assumes "isValidTimeFormat t"
  shows "\<exists>a b d e. t = [a, b, CHR '':'', d, e] \<and> isDigit a \<and> isDigit b \<and> isDigit d \<and> isDigit e
           \<and> digitVal a * 10 + digitVal b < 24 \<and> digitVal d * 10 + digitVal e < 60"
proof -
  from assms obtain a b c d e where t: "t = [a, b, c, d, e]"
    unfolding isValidTimeFormat_def
    by (simp split: list.splits)
  from assms have c: "c = CHR '':''" and d: "d \<in> set ''012345''" and e: "isDigit e"
    and ab: "(a \<in> set ''01'' \<and> isDigit b) \<or> (a = CHR ''2'' \<and> b \<in> set ''0123'')"
    unfolding isValidTimeFormat_def t by simp_all
  have dd: "isDigit d" and dv: "digitVal d \<le> 5"
    using d unfolding isDigit_def digitVal_def by auto
  have ev: "digitVal e \<le> 9" using digit_cases[OF e] by simp
  have abv: "isDigit a \<and> isDigit b \<and> digitVal a * 10 + digitVal b < 24"
    using ab
  proof
    assume h: "a \<in> set ''01'' \<and> isDigit b"
    then have "isDigit a" "digitVal a \<le> 1" unfolding isDigit_def digitVal_def by auto
    moreover have "digitVal b \<le> 9" using digit_cases h by blast
    ultimately show ?thesis using h by simp
  next
    assume h: "a = CHR ''2'' \<and> b \<in> set ''0123''"
    then have "isDigit a" "digitVal a = 2" unfolding isDigit_def digitVal_def by auto
    moreover have "isDigit b" "digitVal b \<le> 3" using h unfolding isDigit_def digitVal_def by auto
    ultimately show ?thesis by simp
  qed
  show ?thesis using t c dd e abv dv ev by auto
qed

lemma valid_time_parse:
  assumes "isValidTimeFormat t"
  shows "\<exists>h m. parseTime t = Some (h, m) \<and> 0 \<le> h \<and> h < 24 \<and> 0 \<le> m \<and> m < 60"
proof -
  from valid_time_shape[OF assms] obtain a b d e where
    t: "t = [a, b, CHR '':'', d, e]" and dg: "isDigit a" "isDigit b" "isDigit d" "isDigit e"
    and bd: "digitVal a * 10 + digitVal b < 24" "digitVal d * 10 + digitVal e < 60"
    by blast
  have sp: "split CHR '':'' t = [[a, b], [d, e]]"
    unfolding t using dg by (intro split_two isDigit_not_colon)
  have p: "parseTime t = Some (digitVal a * 10 + digitVal b, digitVal d * 10 + digitVal e)"
    unfolding parseTime_def sp by (simp add: Number_two dg)
  have "0 \<le> digitVal a * 10 + digitVal b" "0 \<le> digitVal d * 10 + digitVal e"
    using digit_cases[OF dg(1)] digit_cases[OF dg(2)] digit_cases[OF dg(3)] digit_cases[OF dg(4)] by auto
  with p bd show ?thesis by blast
qed


lemma stepPastNow_terminates:
  assumes "0 < i"
  shows "\<exists>d k. stepPastNow n now i = Some d \<and> now < d \<and> 0 \<le> k \<and> d = addDays n (k * i)"
proof (induction "nat (now + 1 - n)" arbitrary: n rule: less_induct)
  case less
  show ?case
  proof (cases "n \<le> now")
    case False
    then have "stepPastNow n now i = Some n" by (subst stepPastNow.simps) simp
    with False show ?thesis by (intro exI[of _ n] exI[of _ 0]) (simp add: addDays_def)
  next
    case True
    have "0 < i * msPerDay" using assms msPerDay_pos by simp
    then have "n < addDays n i" unfolding addDays_def by simp
    then have "nat (now + 1 - addDays n i) < nat (now + 1 - n)" using True by simp
    from less[OF this] obtain d k where
      dk: "stepPastNow (addDays n i) now i = Some d" "now < d" "0 \<le> k" "d = addDays (addDays n i) (k * i)"
      by blast
    have "stepPastNow n now i = Some d" using True dk(1) by (subst stepPastNow.simps) simp
    moreover have "d = addDays n ((k + 1) * i)" using dk(4) unfolding addDays_def by (simp add: algebra_simps)
    ultimately show ?thesis using dk(2,3) by (intro exI[of _ d] exI[of _ "k + 1"]) simp
  qed
qed


lemma setHours_addDays_after:
  assumes "1 \<le> k" "0 \<le> h" "0 \<le> m"
  shows "now < setHours tz (addDays now k) h m"
proof -
  have "localDay tz now * msPerDay - tz + msPerDay \<le> (localDay tz now + k) * msPerDay - tz"
  proof -
    have "msPerDay * 1 \<le> msPerDay * k" using assms(1) msPerDay_pos by (intro mult_left_mono) simp_all
    thus ?thesis by (simp add: algebra_simps)
  qed
  also have "\<dots> \<le> setHours tz (addDays now k) h m"
    using setHours_lower[OF assms(2,3), of tz "addDays now k"] by (simp add: localDay_addDays)
  finally show ?thesis using localDay_upper[of now tz] by linarith
qed

lemma getDay_range: "0 \<le> getDay tz t \<and> getDay tz t \<le> 6"
  unfolding getDay_def by simp

lemma mod7_add_mult: "(x + q * 7) mod 7 = x mod (7::int)"
  by (rule mod_mult_self1)

lemma getDay_shift:
  assumes "0 \<le> x" "x \<le> 6"
  shows "(L + (x - (L + 4) mod 7) + 4) mod 7 = (x::int)"
proof -
  define q where "q = (L + 4) div 7"
  define r where "r = (L + 4) mod 7"
  have "q * 7 + r = L + 4" unfolding q_def r_def by (rule div_mult_mod_eq)
  then have "L + (x - r) + 4 = x + q * 7" by linarith
  then have "(L + (x - r) + 4) mod 7 = x mod 7" by (simp only: mod7_add_mult)
  thus ?thesis using assms unfolding r_def by simp
qed

lemma getDay_shift_week:
  assumes "0 \<le> x" "x \<le> 6"
  shows "(L + (7 - (L + 4) mod 7 + x) + 4) mod 7 = (x::int)"
proof -
  define q where "q = (L + 4) div 7"
  define r where "r = (L + 4) mod 7"
  have "q * 7 + r = L + 4" unfolding q_def r_def by (rule div_mult_mod_eq)
  then have "L + (7 - r + x) + 4 = (x + 7) + q * 7" by linarith
  then have "(L + (7 - r + x) + 4) mod 7 = (x + 7) mod 7" by (simp only: mod7_add_mult)
  thus ?thesis using assms unfolding r_def by simp
qed

lemma getDay_setHours_addDays:
  assumes "0 \<le> h" "h < 24" "0 \<le> m" "m < 60"
  shows "getDay tz (setHours tz (addDays now k) h m) = (localDay tz now + k + 4) mod 7"
  unfolding getDay_def by (simp add: localDay_setHours[OF assms] localDay_addDays)


lemma validateDaily_ok:
  assumes "validateDailyFrequency details = Inr ()"
  shows "\<exists>t. time details = Some t \<and> isValidTimeFormat t"
  using assms unfolding validateDailyFrequency_def
  by (simp split: option.splits if_splits)

lemma validateWeekly_ok:
  assumes "validateWeeklyFrequency details = Inr ()"
  shows "\<exists>ds t. days details = Some ds \<and> ds \<noteq> [] \<and> (\<forall>x\<in>set ds. 0 \<le> x \<and> x \<le> 6)
            \<and> time details = Some t \<and> isValidTimeFormat t"
  using assms unfolding validateWeeklyFrequency_def
  by (simp split: option.splits if_splits add: list_ex_iff not_less)

lemma validateCustom_ok:
  assumes "validateCustomFrequency details = Inr ()"
  shows "\<exists>n t. count details = Some n \<and> 1 \<le> n \<and> n \<le> 365
            \<and> (unit details = Some ''days'' \<or> unit details = Some ''weeks'')
            \<and> time details = Some t \<and> isValidTimeFormat t"
  using assms unfolding validateCustomFrequency_def
  by (simp split: option.splits if_splits)

lemma daily_next:
  assumes "time details = Some t" "isValidTimeFormat t"
  shows "\<exists>d. getNextDailyOccurrence tz details now = Inr d \<and> now < d"
proof -
  from valid_time_parse[OF assms(2)] obtain h m where
    p: "parseTime t = Some (h, m)" and b: "0 \<le> h" "h < 24" "0 \<le> m" "m < 60" by blast
  have "now < addDays (setHours tz now h m) 1"
    using setHours_lower[OF b(1,3), of tz now] localDay_upper[of now tz]
    unfolding addDays_def by simp
  thus ?thesis unfolding getNextDailyOccurrence_def using assms(1) p
    by (simp add: Let_def)
qed


lemma find_SomeD: "find P xs = Some x \<Longrightarrow> x \<in> set xs \<and> P x"
  by (induction xs) (auto split: if_splits)

lemma weekly_next:
  assumes ds: "days details = Some ds" "ds \<noteq> []" "\<forall>x\<in>set ds. 0 \<le> x \<and> x \<le> 6"
    and t: "time details = Some t" "isValidTimeFormat t"
  shows "\<exists>d. getNextWeeklyOccurrence tz details now = Inr d \<and> now < d \<and> getDay tz d \<in> set ds"
proof -
  from valid_time_parse[OF t(2)] obtain h m where
    p: "parseTime t = Some (h, m)" and b: "0 \<le> h" "h < 24" "0 \<le> m" "m < 60" by blast
  define cd where "cd = getDay tz now"
  have cdr: "0 \<le> cd" "cd \<le> 6" unfolding cd_def using getDay_range by simp_all
  have cdL: "cd = (localDay tz now + 4) mod 7" unfolding cd_def getDay_def ..
  show ?thesis
  proof (cases "cd \<in> set (sort ds) \<and> setHours tz now h m > now")
    case True
    have "getDay tz (setHours tz now h m) = cd"
      unfolding getDay_def cd_def by (simp add: localDay_setHours[OF b])
    moreover have "getNextWeeklyOccurrence tz details now = Inr (setHours tz now h m)"
      unfolding getNextWeeklyOccurrence_def using ds(1) t(1) p True
      by (auto simp add: Let_def cd_def)
    ultimately show ?thesis using True by simp
  next
    case False
    show ?thesis
    proof (cases "find (\<lambda>day. day > cd) (sort ds)")
      case (Some day)
      from find_SomeD[OF this] have mem: "day \<in> set ds" and gt: "day > cd"
        by simp_all
      have rng: "0 \<le> day" "day \<le> 6" using mem ds(3) by auto
      let ?d = "setHours tz (addDays now (day - cd)) h m"
      have "now < ?d" using gt by (intro setHours_addDays_after b) simp
      moreover have "getDay tz ?d = day"
        unfolding getDay_setHours_addDays[OF b] cdL
        using getDay_shift[OF rng, of "localDay tz now"] by (simp add: algebra_simps)
      moreover have "getNextWeeklyOccurrence tz details now = Inr ?d"
        unfolding getNextWeeklyOccurrence_def using ds(1) t(1) p False Some
        by (auto simp add: Let_def cd_def)
      ultimately show ?thesis using mem by simp
    next
      case None
      from ds(2) obtain f rest where srt: "sort ds = f # rest"
        by (cases "sort ds") (auto dest: arg_cong[where f = length])
      then have "f \<in> set (sort ds)" by simp
      then have mem: "f \<in> set ds" by simp
      have rng: "0 \<le> f" "f \<le> 6" using mem ds(3) by auto
      let ?d = "setHours tz (addDays now (7 - cd + f)) h m"
      have "now < ?d" using cdr rng by (intro setHours_addDays_after b) simp
      moreover have "getDay tz ?d = f"
        unfolding getDay_setHours_addDays[OF b] cdL
        using getDay_shift_week[OF rng, of "localDay tz now"] by (simp add: algebra_simps)
      moreover have "getNextWeeklyOccurrence tz details now = Inr ?d"
        unfolding getNextWeeklyOccurrence_def using ds(1) t(1) p False None srt
        by (auto simp add: Let_def cd_def)
      ultimately show ?thesis using mem by simp
    qed
  qed
qed

lemma intervalDaysOf_pos: "1 \<le> n \<Longrightarrow> 0 < intervalDaysOf n u"
  unfolding intervalDaysOf_def by simp

lemma custom_next:
  assumes c: "count (h_frequencyDetails habit) = Some n" "1 \<le> n"
    and t: "time (h_frequencyDetails habit) = Some t" "isValidTimeFormat t"
  shows "\<exists>d k. getNextCustomOccurrence tz habit now = Inr d \<and> now < d \<and> 0 \<le> k \<and>
           localDay tz d =
             localDay tz (case h_nextOccurrenceAt habit of Some x \<Rightarrow> x | None \<Rightarrow> h_createdAt habit)
             + k * intervalDaysOf n (unit (h_frequencyDetails habit))"
proof -
  from valid_time_parse[OF t(2)] obtain h m where
    p: "parseTime t = Some (h, m)" and b: "0 \<le> h" "h < 24" "0 \<le> m" "m < 60" by blast
  define start where
    "start = (case h_nextOccurrenceAt habit of Some x \<Rightarrow> x | None \<Rightarrow> h_createdAt habit)"
  define i where "i = intervalDaysOf n (unit (h_frequencyDetails habit))"
  have ipos: "0 < i" unfolding i_def using c(2) by (rule intervalDaysOf_pos)
  from stepPastNow_terminates[OF ipos, of "setHours tz start h m" now] obtain d k where
    dk: "stepPastNow (setHours tz start h m) now i = Some d" "now < d" "0 \<le> k"
        "d = addDays (setHours tz start h m) (k * i)" by blast
  have "localDay tz d = localDay tz start + k * i"
    unfolding dk(4) by (simp add: localDay_addDays localDay_setHours[OF b])
  moreover have "getNextCustomOccurrence tz habit now = Inr d"
    unfolding getNextCustomOccurrence_def using c(1) t(1) p dk(1)
    by (simp add: Let_def start_def i_def)
  ultimately show ?thesis using dk(2,3) unfolding start_def i_def by blast
qed

lemma getNextOccurrence_valid:
  assumes "h_status habit = ACTIVE" "validRule habit"
  shows "\<exists>d. getNextOccurrence tz habit now = Inr (Some d) \<and> now < d"
proof (cases "h_frequencyType habit")
  case DAILY
  with assms(2) have "validateDailyFrequency (h_frequencyDetails habit) = Inr ()"
    unfolding validRule_def validateFrequency_def by simp
  from validateDaily_ok[OF this] obtain t where
    "time (h_frequencyDetails habit) = Some t" "isValidTimeFormat t" by blast
  from daily_next[OF this, of tz now] show ?thesis
    unfolding getNextOccurrence_def using assms(1) DAILY by auto
next
  case WEEKLY
  with assms(2) have "validateWeeklyFrequency (h_frequencyDetails habit) = Inr ()"
    unfolding validRule_def validateFrequency_def by simp
  from validateWeekly_ok[OF this] obtain ds t where
    "days (h_frequencyDetails habit) = Some ds" "ds \<noteq> []" "\<forall>x\<in>set ds. 0 \<le> x \<and> x \<le> 6"
    "time (h_frequencyDetails habit) = Some t" "isValidTimeFormat t" by blast
  from weekly_next[OF this, of tz now] show ?thesis
    unfolding getNextOccurrence_def using assms(1) WEEKLY by auto
next
  case CUSTOM
  with assms(2) have "validateCustomFrequency (h_frequencyDetails habit) = Inr ()"
    unfolding validRule_def validateFrequency_def by simp
  from validateCustom_ok[OF this] obtain n t where
    "count (h_frequencyDetails habit) = Some n" "1 \<le> n"
    "time (h_frequencyDetails habit) = Some t" "isValidTimeFormat t" by blast
  from custom_next[OF this, of tz now] show ?thesis
    unfolding getNextOccurrence_def using assms(1) CUSTOM by auto
qed

lemma midnight_diff:
  "(setHours tz x 0 0 - setHours tz y 0 0) div msPerDay = localDay tz x - localDay tz y"
proof -
  have "setHours tz x 0 0 - setHours tz y 0 0 = (localDay tz x - localDay tz y) * msPerDay"
    unfolding setHours_def by (simp add: algebra_simps)
  thus ?thesis using msPerDay_pos by simp
qed

lemma isCustomScheduledForDate_iff:
  assumes "count (h_frequencyDetails habit) = Some n"
  shows "isCustomScheduledForDate tz habit date =
           (let i = intervalDaysOf n (unit (h_frequencyDetails habit));
                diff = localDay tz date - localDay tz (h_createdAt habit)
            in 0 \<le> diff \<and> i \<noteq> 0 \<and> diff mod i = 0)"
  unfolding isCustomScheduledForDate_def floorDays_def using assms
  by (simp add: Let_def midnight_diff)

lemma localDay_midnight: "localDay tz (setHours tz x 0 0) = localDay tz x"
  by (rule localDay_setHours) simp_all

lemma custom_next_scheduled:
  assumes c: "count (h_frequencyDetails habit) = Some n" "1 \<le> n"
    and t: "time (h_frequencyDetails habit) = Some t" "isValidTimeFormat t"
    and al: "nextOccurrenceAligned tz habit"
  shows "\<exists>d. getNextCustomOccurrence tz habit now = Inr d
           \<and> isCustomScheduledForDate tz habit (setHours tz d 0 0)"
proof -
  define i where "i = intervalDaysOf n (unit (h_frequencyDetails habit))"
  define start where
    "start = (case h_nextOccurrenceAt habit of Some x \<Rightarrow> x | None \<Rightarrow> h_createdAt habit)"
  have ipos: "0 < i" unfolding i_def using c(2) by (rule intervalDaysOf_pos)
  from custom_next[OF c t, of tz now] obtain d k where
    dk: "getNextCustomOccurrence tz habit now = Inr d" "0 \<le> k"
        "localDay tz d = localDay tz start + k * i"
    unfolding start_def i_def by blast
  define a where "a = localDay tz start - localDay tz (h_createdAt habit)"
  have a: "0 \<le> a \<and> a mod i = 0"
  proof (cases "h_nextOccurrenceAt habit")
    case None
    then show ?thesis unfolding a_def start_def by simp
  next
    case (Some x)
    with al have "isCustomScheduledForDate tz habit x"
      unfolding nextOccurrenceAligned_def by simp
    then show ?thesis
      unfolding isCustomScheduledForDate_iff[OF c(1)] a_def start_def i_def using Some
      by (simp add: Let_def)
  qed
  have diff: "localDay tz (setHours tz d 0 0) - localDay tz (h_createdAt habit) = a + k * i"
    unfolding localDay_midnight dk(3) a_def by simp
  have "0 \<le> a + k * i" using a dk(2) ipos by simp
  moreover have "(a + k * i) mod i = 0" using a by simp
  ultimately have "isCustomScheduledForDate tz habit (setHours tz d 0 0)"
    unfolding isCustomScheduledForDate_iff[OF c(1)] using ipos diff
    by (simp add: Let_def i_def)
  with dk(1) show ?thesis by blast
qed

lemma getDay_midnight: "getDay tz (setHours tz x 0 0) = getDay tz x"
  unfolding getDay_def by (simp add: localDay_midnight)

section \<open>Facts about the example data\<close>

lemma valid_0700: "isValidTimeFormat ''07:00''"
  by (simp add: isValidTimeFormat_def isDigit_def)

lemma valid_0800: "isValidTimeFormat ''08:00''"
  by (simp add: isValidTimeFormat_def isDigit_def)

lemma validRule_custom: "validRule (exHabit CUSTOM customDetails nextAt)"
  by (simp add: validRule_def exHabit_def customDetails_def validateFrequency_def
      validateCustomFrequency_def valid_0700)

lemma validRule_weekly: "validRule (exHabit WEEKLY weeklyDetails nextAt)"
  by (simp add: validRule_def exHabit_def weeklyDetails_def validateFrequency_def
      validateWeeklyFrequency_def valid_0800)

lemma validRule_daily: "validRule (exHabit DAILY dailyDetails nextAt)"
  by (simp add: validRule_def exHabit_def dailyDetails_def validateFrequency_def
      validateDailyFrequency_def valid_0700)

section \<open>The frequency validator: auxiliary facts\<close>

lemma reported_time:
  "reportedRules
     (case time details of
        None \<Rightarrow> Inl (BadRequestException required)
      | Some t \<Rightarrow>
          if t = [] then Inl (BadRequestException required)
          else if \<not> isValidTimeFormat t
            then Inl (BadRequestException ''Time must be in HH:mm format'')
          else Inr ())
   = take 1 (spec_timeViolations required details)"
  unfolding reportedRules_def spec_timeViolations_def
  by (simp split: option.splits)

lemma reported_first_rule:
  "reportedRules (validateFrequency type details) = take 1 (spec_violatedRules type details)"
proof (cases type)
  case DAILY
  then show ?thesis
    unfolding validateFrequency_def validateDailyFrequency_def spec_violatedRules_def
    by (simp add: reported_time)
next
  case WEEKLY
  show ?thesis
  proof (cases "days details")
    case None
    then show ?thesis using WEEKLY
      unfolding validateFrequency_def validateWeeklyFrequency_def spec_violatedRules_def
      by (simp add: reportedRules_def)
  next
    case (Some ds)
    then show ?thesis using WEEKLY
      unfolding validateFrequency_def validateWeeklyFrequency_def spec_violatedRules_def
      by (simp add: reported_time) (simp add: reportedRules_def)
  qed
next
  case CUSTOM
  show ?thesis
  proof (cases "count details")
    case None
    then show ?thesis using CUSTOM
      unfolding validateFrequency_def validateCustomFrequency_def spec_violatedRules_def
      by (simp add: reportedRules_def)
  next
    case (Some n)
    then show ?thesis using CUSTOM
      unfolding validateFrequency_def validateCustomFrequency_def spec_violatedRules_def
      by (cases "unit details") (simp_all add: reported_time, simp_all add: reportedRules_def)
  qed
qed

lemma validateFrequency_error_shape:
  "validateFrequency type details = Inr () \<or> (\<exists>m. validateFrequency type details = Inl (BadRequestException m))"
  unfolding validateFrequency_def validateDailyFrequency_def validateWeeklyFrequency_def
    validateCustomFrequency_def
  by (simp split: HabitFrequencyType.splits option.splits)

section \<open>The completion tracker: auxiliary facts\<close>

lemma midnight_less:
  "(setHours tz a 0 0 < setHours tz b 0 0) = (localDay tz a < localDay tz b)"
proof -
  have "(localDay tz a * msPerDay < localDay tz b * msPerDay) = (localDay tz a < localDay tz b)"
    using msPerDay_pos by (simp add: mult_less_cancel_right)
  thus ?thesis unfolding setHours_def by simp
qed

lemma midnight_eq:
  "(setHours tz a 0 0 = setHours tz b 0 0) = (localDay tz a = localDay tz b)"
proof -
  have "(localDay tz a * msPerDay = localDay tz b * msPerDay) = (localDay tz a = localDay tz b)"
    using msPerDay_pos by simp
  thus ?thesis unfolding setHours_def by simp
qed

lemma localDay_mono: "a \<le> b \<Longrightarrow> localDay tz a \<le> localDay tz b"
  unfolding localDay_def using msPerDay_pos by (intro zdiv_mono1) simp_all

lemma daily_errors:
  "getNextDailyOccurrence tz details now = Inl e \<Longrightarrow> e = MalformedDetails"
  unfolding getNextDailyOccurrence_def
  by (simp add: Let_def split: option.splits prod.splits if_splits)

lemma weekly_errors:
  "getNextWeeklyOccurrence tz details now = Inl e \<Longrightarrow> e = MalformedDetails"
  unfolding getNextWeeklyOccurrence_def
  by (simp add: Let_def split: option.splits prod.splits if_splits list.splits)

lemma custom_errors:
  "getNextCustomOccurrence tz habit now = Inl e \<Longrightarrow> e = MalformedDetails \<or> e = Diverges"
  unfolding getNextCustomOccurrence_def
  by (simp add: Let_def split: option.splits prod.splits if_splits)

lemma getNextOccurrence_errors:
  assumes "getNextOccurrence tz habit now = Inl e"
  shows "e = MalformedDetails \<or> e = Diverges"
proof (cases "h_status habit = ACTIVE")
  case False
  with assms show ?thesis unfolding getNextOccurrence_def by simp
next
  case True
  show ?thesis
  proof (cases "h_frequencyType habit")
    case DAILY
    with assms True have "getNextDailyOccurrence tz (h_frequencyDetails habit) now = Inl e"
      unfolding getNextOccurrence_def
      by (cases "getNextDailyOccurrence tz (h_frequencyDetails habit) now") simp_all
    then show ?thesis using daily_errors by blast
  next
    case WEEKLY
    with assms True have "getNextWeeklyOccurrence tz (h_frequencyDetails habit) now = Inl e"
      unfolding getNextOccurrence_def
      by (cases "getNextWeeklyOccurrence tz (h_frequencyDetails habit) now") simp_all
    then show ?thesis using weekly_errors by blast
  next
    case CUSTOM
    with assms True have "getNextCustomOccurrence tz habit now = Inl e"
      unfolding getNextOccurrence_def
      by (cases "getNextCustomOccurrence tz habit now") simp_all
    then show ?thesis using custom_errors by blast
  qed
qed

lemma markComplete_future:
  assumes "findByIdAndUser st habitId userId = Some habit" "h_status habit = ACTIVE"
    and "localDay tz now < localDay tz (dto_scheduledFor dto)"
  shows "markComplete tz st habitId userId dto now =
           (Inl (BadRequestException ''Cannot complete a habit for a future date''), st)"
  unfolding markComplete_def using assms by (simp add: Let_def midnight_less)

lemma markComplete_not_future:
  assumes "findByIdAndUser st habitId userId = Some habit" "h_status habit = ACTIVE"
    and "localDay tz (dto_scheduledFor dto) \<le> localDay tz now"
  shows "markComplete tz st habitId userId dto now =
           (if isCompletedForDate tz st habitId (dto_scheduledFor dto)
            then (Inl (ConflictException ''Habit already completed for this date''), st)
            else (case createCompletion st habitId userId now (dto_scheduledFor dto)
                         (trimOrNull (dto_notes dto)) of
                    (st1, completion) \<Rightarrow>
                      (case getNextOccurrence tz habit now of
                         Inl e \<Rightarrow> (Inl e, st1)
                       | Inr None \<Rightarrow> (Inr completion, st1)
                       | Inr (Some nextOccurrence) \<Rightarrow>
                           (Inr completion,
                            fst (updateHabitRow st1 habitId
                              (noUpdates\<lparr>u_nextOccurrenceAt := Some (Some nextOccurrence)\<rparr>))))))"
  unfolding markComplete_def using assms by (simp add: Let_def midnight_less not_less[symmetric])

lemma markComplete_not_future_error:
  assumes "findByIdAndUser st habitId userId = Some habit" "h_status habit = ACTIVE"
    and "localDay tz (dto_scheduledFor dto) \<le> localDay tz now"
  shows "fst (markComplete tz st habitId userId dto now)
           \<noteq> Inl (BadRequestException ''Cannot complete a habit for a future date'')"
proof (cases "isCompletedForDate tz st habitId (dto_scheduledFor dto)")
  case True
  then show ?thesis unfolding markComplete_not_future[OF assms] by simp
next
  case False
  obtain st1 completion where cc:
    "createCompletion st habitId userId now (dto_scheduledFor dto) (trimOrNull (dto_notes dto))
       = (st1, completion)" by (cases "createCompletion st habitId userId now (dto_scheduledFor dto) (trimOrNull (dto_notes dto))")
  show ?thesis
  proof (cases "getNextOccurrence tz habit now")
    case (Inl e)
    from getNextOccurrence_errors[OF this] show ?thesis
      unfolding markComplete_not_future[OF assms] using False cc Inl by auto
  next
    case (Inr r)
    then show ?thesis
      unfolding markComplete_not_future[OF assms] using False cc
      by (cases r) simp_all
  qed
qed

lemma completions_updateHabitRow: "completions (fst (updateHabitRow st habitId u)) = completions st"
  unfolding updateHabitRow_def by (simp add: Let_def)

lemma markComplete_accepts:
  assumes "findByIdAndUser st habitId userId = Some habit" "h_status habit = ACTIVE"
    and "validRule habit"
    and "localDay tz (dto_scheduledFor dto) \<le> localDay tz now"
    and "\<not> isCompletedForDate tz st habitId (dto_scheduledFor dto)"
  shows "\<exists>c st'. markComplete tz st habitId userId dto now = (Inr c, st')
           \<and> completions st' = completions st @ [c]
           \<and> c_id c = nextCompletionId st
           \<and> c_habitId c = habitId \<and> c_userId c = userId
           \<and> c_scheduledFor c = dto_scheduledFor dto
           \<and> c_completedAt c = now \<and> c_undoneAt c = None"
proof -
  from getNextOccurrence_valid[OF assms(2,3), of tz now] obtain d where
    d: "getNextOccurrence tz habit now = Inr (Some d)" by blast
  show ?thesis
    unfolding markComplete_not_future[OF assms(1,2,4)] using assms(5) d
    by (simp add: createCompletion_def Let_def completions_updateHabitRow)
qed

lemma find_map_preserve:
  assumes "\<And>x. P (f x) = P x"
  shows "find P (map f xs) = map_option f (find P xs)"
  by (induction xs) (simp_all add: assms)

lemma find_cong_set: "(\<And>x. x \<in> set xs \<Longrightarrow> P x = Q x) \<Longrightarrow> find P xs = find Q xs"
  by (induction xs) simp_all

lemma undoCompletion_expired:
  assumes "findCompletionByIdAndUser st completionId userId = Some c" "c_undoneAt c = None"
    and "now - c_completedAt c > 24 * 3600000"
  shows "undoCompletion st completionId userId now =
           (Inl (BadRequestException ''Cannot undo completion after 24 hours''), st)"
  unfolding undoCompletion_def UNDO_WINDOW_HOURS_def using assms by simp

lemma undoCompletion_in_window:
  assumes "findCompletionByIdAndUser st completionId userId = Some c" "c_undoneAt c = None"
    and "now - c_completedAt c \<le> 24 * 3600000"
  shows "undoCompletion st completionId userId now = (Inr (), markUndone st completionId now)"
  unfolding undoCompletion_def UNDO_WINDOW_HOURS_def using assms by simp

lemma markUndone_ids:
  "map c_id (completions (markUndone st completionId now)) = map c_id (completions st)"
  unfolding markUndone_def by (simp add: comp_def if_distrib cong: if_cong)

lemma markUndone_habits: "habits (markUndone st completionId now) = habits st"
  unfolding markUndone_def by simp

lemma markUndone_find:
  assumes "findCompletionByIdAndUser st completionId userId = Some c"
  shows "findCompletionByIdAndUser (markUndone st completionId now) completionId userId
           = Some (c\<lparr>c_undoneAt := Some now\<rparr>)"
proof -
  let ?f = "\<lambda>c. if c_id c = completionId then c\<lparr>c_undoneAt := Some now\<rparr> else c"
  let ?P = "\<lambda>c. c_id c = completionId \<and> c_userId c = userId"
  have "find ?P (map ?f (completions st)) = map_option ?f (find ?P (completions st))"
    by (rule find_map_preserve) simp
  moreover from assms have fc: "find ?P (completions st) = Some c"
    unfolding findCompletionByIdAndUser_def .
  moreover from fc have "c_id c = completionId"
    using find_SomeD[of ?P "completions st" c] by simp
  ultimately show ?thesis
    unfolding findCompletionByIdAndUser_def markUndone_def by simp
qed

lemma archived_pause:
  assumes "findByIdAndUser st habitId userId = Some habit" "h_status habit = ARCHIVED"
  shows "pauseHabit st userId habitId = (Inl (ConflictException ''Cannot pause an archived habit''), st)"
  unfolding pauseHabit_def getHabitById_def using assms by simp

lemma archived_resume:
  assumes "findByIdAndUser st habitId userId = Some habit" "h_status habit = ARCHIVED"
  shows "resumeHabit tz st userId habitId now = (Inl (ConflictException ''Cannot resume an archived habit''), st)"
  unfolding resumeHabit_def getHabitById_def using assms by simp

lemma not_active_complete:
  assumes "findByIdAndUser st habitId userId = Some habit" "h_status habit \<noteq> ACTIVE"
  shows "markComplete tz st habitId userId dto now =
           (Inl (BadRequestException ''Cannot complete a paused or archived habit''), st)"
  unfolding markComplete_def using assms by simp

lemma habits_updateHabitRow:
  "habits (fst (updateHabitRow st habitId u)) =
     map (\<lambda>h. if h_id h = habitId then applyUpdates u h else h) (habits st)"
  unfolding updateHabitRow_def by (simp add: Let_def)

lemma markComplete_accepts_habits:
  assumes "findByIdAndUser st habitId userId = Some habit" "h_status habit = ACTIVE"
    and "validRule habit"
    and "localDay tz (dto_scheduledFor dto) \<le> localDay tz now"
    and "\<not> isCompletedForDate tz st habitId (dto_scheduledFor dto)"
  shows "\<exists>d. habits (snd (markComplete tz st habitId userId dto now)) =
           map (\<lambda>h. if h_id h = habitId
                     then applyUpdates (noUpdates\<lparr>u_nextOccurrenceAt := Some (Some d)\<rparr>) h
                     else h) (habits st)"
proof -
  from getNextOccurrence_valid[OF assms(2,3), of tz now] obtain d where
    d: "getNextOccurrence tz habit now = Inr (Some d)" by blast
  have "habits (snd (markComplete tz st habitId userId dto now)) =
           map (\<lambda>h. if h_id h = habitId
                     then applyUpdates (noUpdates\<lparr>u_nextOccurrenceAt := Some (Some d)\<rparr>) h
                     else h) (habits st)"
    unfolding markComplete_not_future[OF assms(1,2,4)] using assms(5) d
    by (simp add: createCompletion_def Let_def habits_updateHabitRow)
  then show ?thesis ..
qed

lemma markComplete_success_inv:
  assumes f: "findByIdAndUser st habitId userId = Some habit"
    and m: "markComplete tz st habitId userId dto now = (Inr c, st1)"
  shows "h_status habit = ACTIVE
         \<and> localDay tz (dto_scheduledFor dto) \<le> localDay tz now
         \<and> \<not> isCompletedForDate tz st habitId (dto_scheduledFor dto)"
proof -
  have a: "h_status habit = ACTIVE"
    using not_active_complete[OF f, of tz dto now] m by auto
  have b: "localDay tz (dto_scheduledFor dto) \<le> localDay tz now"
    using markComplete_future[OF f a, of tz now dto] m by (cases "localDay tz now < localDay tz (dto_scheduledFor dto)") simp_all
  have "\<not> isCompletedForDate tz st habitId (dto_scheduledFor dto)"
    using markComplete_not_future[OF f a b] m by (auto split: if_splits)
  with a b show ?thesis by simp
qed

lemma undoCompletion_success_inv:
  assumes "undoCompletion st completionId userId now = (Inr (), st2)"
  shows "st2 = markUndone st completionId now"
  using assms unfolding undoCompletion_def
  by (simp split: option.splits if_splits)

lemma applyUpdates_next_fields:
  "h_id (applyUpdates (noUpdates\<lparr>u_nextOccurrenceAt := x\<rparr>) h) = h_id h"
  "h_userId (applyUpdates (noUpdates\<lparr>u_nextOccurrenceAt := x\<rparr>) h) = h_userId h"
  "h_deletedAt (applyUpdates (noUpdates\<lparr>u_nextOccurrenceAt := x\<rparr>) h) = h_deletedAt h"
  "h_status (applyUpdates (noUpdates\<lparr>u_nextOccurrenceAt := x\<rparr>) h) = h_status h"
  "h_frequencyType (applyUpdates (noUpdates\<lparr>u_nextOccurrenceAt := x\<rparr>) h) = h_frequencyType h"
  "h_frequencyDetails (applyUpdates (noUpdates\<lparr>u_nextOccurrenceAt := x\<rparr>) h) = h_frequencyDetails h"
  unfolding applyUpdates_def noUpdates_def by simp_all

lemma not_completed_after_undo:
  assumes nc: "\<not> isCompletedForDate tz st habitId date"
    and cs: "completions st1 = completions st @ [c]"
  shows "\<not> isCompletedForDate tz (markUndone st1 (c_id c) now) habitId date"
proof -
  let ?P = "\<lambda>c. c_habitId c = habitId \<and> localDay tz (c_scheduledFor c) = localDay tz date
                \<and> c_undoneAt c = None"
  let ?f = "\<lambda>x. if c_id x = c_id c then x\<lparr>c_undoneAt := Some now\<rparr> else x"
  from nc have "filter ?P (completions st) = []"
    unfolding isCompletedForDate_def by simp
  then have old: "\<And>x. x \<in> set (completions st) \<Longrightarrow> \<not> ?P x"
    by (simp add: filter_empty_conv)
  have new: "\<not> ?P (?f x)" if "x \<in> set (completions st @ [c])" for x
  proof (cases "c_id x = c_id c")
    case True
    then show ?thesis by simp
  next
    case False
    with that have "x \<in> set (completions st)" by auto
    from old[OF this] False show ?thesis by simp
  qed
  have "\<not> ?P y" if "y \<in> set (map ?f (completions st @ [c]))" for y
  proof -
    from that obtain x where "x \<in> set (completions st @ [c])" "y = ?f x"
      unfolding set_map by blast
    with new[of x] show ?thesis by simp
  qed
  then have "filter ?P (map ?f (completions st @ [c])) = []"
    unfolding filter_empty_conv by blast
  then show ?thesis unfolding isCompletedForDate_def markUndone_def cs by simp
qed

lemma complete_undo_complete:
  assumes f: "findByIdAndUser st habitId userId = Some habit"
    and v: "validRule habit"
    and m: "markComplete tz st habitId userId dto now1 = (Inr c, st1)"
    and u: "undoCompletion st1 (c_id c) userId now2 = (Inr (), st2)"
    and t: "now1 \<le> now3"
  shows "\<exists>c' st3. markComplete tz st2 habitId userId dto now3 = (Inr c', st3)
           \<and> completions st3 = completions st2 @ [c']
           \<and> c_scheduledFor c' = dto_scheduledFor dto \<and> c_undoneAt c' = None"
proof -
  from markComplete_success_inv[OF f m] have
    a: "h_status habit = ACTIVE"
    and b: "localDay tz (dto_scheduledFor dto) \<le> localDay tz now1"
    and nc: "\<not> isCompletedForDate tz st habitId (dto_scheduledFor dto)" by simp_all
  from markComplete_accepts[OF f a v b nc] m have cs: "completions st1 = completions st @ [c]"
    by auto
  from markComplete_accepts_habits[OF f a v b nc] m obtain d where
    hs: "habits st1 = map (\<lambda>h. if h_id h = habitId
                     then applyUpdates (noUpdates\<lparr>u_nextOccurrenceAt := Some (Some d)\<rparr>) h
                     else h) (habits st)" by auto
  have st2: "st2 = markUndone st1 (c_id c) now2" using undoCompletion_success_inv[OF u] .
  let ?g = "\<lambda>h. if h_id h = habitId
                     then applyUpdates (noUpdates\<lparr>u_nextOccurrenceAt := Some (Some d)\<rparr>) h
                     else h"
  let ?P = "\<lambda>h. h_id h = habitId \<and> h_userId h = userId \<and> h_deletedAt h = None"
  have "find ?P (map ?g (habits st)) = map_option ?g (find ?P (habits st))"
    by (rule find_map_preserve) (simp add: applyUpdates_next_fields)
  then have f2: "findByIdAndUser st2 habitId userId = Some (?g habit)"
    using f unfolding findByIdAndUser_def st2 markUndone_habits hs by simp
  have a2: "h_status (?g habit) = ACTIVE" using a by (simp add: applyUpdates_next_fields)
  have v2: "validRule (?g habit)" using v unfolding validRule_def
    by (simp add: applyUpdates_next_fields)
  have b2: "localDay tz (dto_scheduledFor dto) \<le> localDay tz now3"
    using b localDay_mono[OF t, of tz] by simp
  have nc2: "\<not> isCompletedForDate tz st2 habitId (dto_scheduledFor dto)"
    unfolding st2 by (rule not_completed_after_undo[OF nc cs])
  from markComplete_accepts[OF f2 a2 v2 b2 nc2] show ?thesis by blast
qed

lemma localDay_dateOnly_east:
  assumes "0 \<le> tz" "tz < msPerDay"
  shows "localDay tz (newDateFromDateOnly day) = day"
  by (rule localDay_unique) (use assms in \<open>simp_all add: newDateFromDateOnly_def\<close>)

lemma localDay_dateOnly_west:
  assumes "- msPerDay \<le> tz" "tz < 0"
  shows "localDay tz (newDateFromDateOnly day) = day - 1"
  by (rule localDay_unique)
    (use assms in \<open>simp_all add: newDateFromDateOnly_def algebra_simps\<close>)

lemma markComplete_dateOnly_east:
  assumes "findByIdAndUser st habitId userId = Some habit" "h_status habit = ACTIVE"
    and "0 \<le> tz" "tz < msPerDay"
    and "dto_scheduledFor dto = newDateFromDateOnly day"
    and "localDay tz now < day"
  shows "markComplete tz st habitId userId dto now =
           (Inl (BadRequestException ''Cannot complete a habit for a future date''), st)"
  using markComplete_future[OF assms(1,2), of tz now dto] assms(5,6)
    localDay_dateOnly_east[OF assms(3,4), of day]
  by simp

section \<open>The streak calculator: auxiliary facts\<close>













section \<open>The recurrence engine\<close>

text \<open>
  Claim C1. For every habit with status ACTIVE and a frequency rule that
  \<open>validateFrequency\<close> accepts (DAILY, WEEKLY or CUSTOM), and every reference instant
  \<open>now\<close>, \<open>getNextOccurrence\<close> returns an instant, and that instant is strictly after
  \<open>now\<close>. For CUSTOM this includes that the stepping loop terminates.
\<close>

theorem getNextOccurrence_strictly_after:
  assumes "h_status habit = ACTIVE"
    and "validateFrequency (h_frequencyType habit) (h_frequencyDetails habit) = Inr ()"
  shows "\<exists>d. getNextOccurrence tz habit now = Inr (Some d) \<and> now < d"
  using getNextOccurrence_valid[of habit tz now] assms unfolding validRule_def by simp

theorem getNextOccurrence_strictly_after_witness:
  "h_status (exHabit CUSTOM customDetails None) = ACTIVE
   \<and> validateFrequency CUSTOM customDetails = Inr ()
   \<and> (\<exists>d. getNextOccurrence 0 (exHabit CUSTOM customDetails None) 388800000 = Inr (Some d)
           \<and> 388800000 < d)"
  using getNextOccurrence_strictly_after [of "exHabit CUSTOM customDetails None" 0 388800000]
    validRule_custom [of None]
  by (simp add: exHabit_def validRule_def)

text \<open>
  Claim C2, as stated, fails. A CUSTOM habit created on day 0 with an interval of 3 days
  whose persisted \<open>nextOccurrenceAt\<close> is 07:00 on day 5 (as a DAILY rule leaves it before
  the rule is changed to CUSTOM): at noon of day 4, \<open>getNextOccurrence\<close> returns 07:00
  on day 5, and \<open>isScheduledForDate\<close> rejects day 5.
\<close>

theorem nextOccurrence_date_not_scheduled_counterexample:
  "h_status (exHabit CUSTOM customDetails (Some 457200000)) = ACTIVE
   \<and> validateFrequency (h_frequencyType (exHabit CUSTOM customDetails (Some 457200000)))
        (h_frequencyDetails (exHabit CUSTOM customDetails (Some 457200000))) = Inr ()
   \<and> getNextOccurrence 0 (exHabit CUSTOM customDetails (Some 457200000)) 388800000
        = Inr (Some 457200000)
   \<and> isScheduledForDate 0 (exHabit CUSTOM customDetails (Some 457200000))
        (setHours 0 457200000 0 0) = Inr False"
  by code_simp

text \<open>
  Claim C2, amended. In a process time zone with a fixed offset from UTC (one without
  daylight-saving transitions): for every ACTIVE habit with a valid rule, the calendar
  date of the instant returned by \<open>getNextOccurrence\<close> is a date for which
  \<open>isScheduledForDate\<close> returns true, provided that, for a CUSTOM habit, the persisted
  \<open>nextOccurrenceAt\<close> is \<open>null\<close> or itself falls on a date that
  \<open>isCustomScheduledForDate\<close> accepts. The offset \<open>tz\<close> of the statement is any fixed
  offset. Zones with daylight saving are left out: there the two local midnights that
  \<open>isCustomScheduledForDate\<close> subtracts need not be a whole number of days apart, as
  \<open>floorDays_across_daylight_saving_start\<close> below shows.
\<close>

theorem nextOccurrence_date_is_scheduled:
  assumes "h_status habit = ACTIVE"
    and "validateFrequency (h_frequencyType habit) (h_frequencyDetails habit) = Inr ()"
    and "h_frequencyType habit = CUSTOM \<longrightarrow> nextOccurrenceAligned tz habit"
  shows "\<exists>d. getNextOccurrence tz habit now = Inr (Some d)
           \<and> isScheduledForDate tz habit (setHours tz d 0 0) = Inr True"
proof (cases "h_frequencyType habit")
  case DAILY
  from getNextOccurrence_valid[of habit tz now] assms(1,2) obtain d where
    "getNextOccurrence tz habit now = Inr (Some d)" unfolding validRule_def by blast
  then show ?thesis unfolding isScheduledForDate_def using assms(1) DAILY by simp
next
  case WEEKLY
  with assms(2) have "validateWeeklyFrequency (h_frequencyDetails habit) = Inr ()"
    unfolding validateFrequency_def by simp
  from validateWeekly_ok[OF this] obtain ds t where
    w: "days (h_frequencyDetails habit) = Some ds" "ds \<noteq> []" "\<forall>x\<in>set ds. 0 \<le> x \<and> x \<le> 6"
    "time (h_frequencyDetails habit) = Some t" "isValidTimeFormat t" by blast
  from weekly_next[OF this, of tz now] obtain d where
    "getNextWeeklyOccurrence tz (h_frequencyDetails habit) now = Inr d" "getDay tz d \<in> set ds"
    by blast
  then show ?thesis
    unfolding getNextOccurrence_def isScheduledForDate_def using assms(1) WEEKLY w(1)
    by (simp add: getDay_midnight)
next
  case CUSTOM
  with assms(2) have "validateCustomFrequency (h_frequencyDetails habit) = Inr ()"
    unfolding validateFrequency_def by simp
  from validateCustom_ok[OF this] obtain n t where
    c: "count (h_frequencyDetails habit) = Some n" "1 \<le> n"
    "time (h_frequencyDetails habit) = Some t" "isValidTimeFormat t" by blast
  from assms(3) CUSTOM have "nextOccurrenceAligned tz habit" by simp
  from custom_next_scheduled[OF c this, of now] show ?thesis
    unfolding getNextOccurrence_def isScheduledForDate_def using assms(1) CUSTOM
    by auto
qed

theorem nextOccurrence_date_is_scheduled_witness:
  "h_status (exHabit CUSTOM customDetails (Some 543600000)) = ACTIVE
   \<and> validateFrequency CUSTOM customDetails = Inr ()
   \<and> h_nextOccurrenceAt (exHabit CUSTOM customDetails (Some 543600000)) = Some 543600000
   \<and> nextOccurrenceAligned 0 (exHabit CUSTOM customDetails (Some 543600000))
   \<and> getNextOccurrence 0 (exHabit CUSTOM customDetails (Some 543600000)) 648000000
        = Inr (Some 802800000)
   \<and> (\<exists>d. getNextOccurrence 0 (exHabit CUSTOM customDetails (Some 543600000)) 648000000
             = Inr (Some d)
           \<and> isScheduledForDate 0 (exHabit CUSTOM customDetails (Some 543600000))
                 (setHours 0 d 0 0) = Inr True)
   \<and> nextOccurrenceAligned 0 (exHabit CUSTOM customDetails None)
   \<and> (\<exists>d. getNextOccurrence 0 (exHabit CUSTOM customDetails None) 388800000 = Inr (Some d)
           \<and> isScheduledForDate 0 (exHabit CUSTOM customDetails None) (setHours 0 d 0 0)
               = Inr True)
   \<and> validateFrequency WEEKLY weeklyDetails = Inr ()
   \<and> (\<exists>d. getNextOccurrence 0 (exHabit WEEKLY weeklyDetails None) 388800000 = Inr (Some d)
           \<and> isScheduledForDate 0 (exHabit WEEKLY weeklyDetails None) (setHours 0 d 0 0)
               = Inr True)"
proof -
  let ?h = "exHabit CUSTOM customDetails (Some 543600000)"
  let ?n = "exHabit CUSTOM customDetails None"
  let ?w = "exHabit WEEKLY weeklyDetails None"
  have a: "h_status ?h = ACTIVE" "h_status ?n = ACTIVE" "h_status ?w = ACTIVE"
    by (simp_all add: exHabit_def)
  have vc: "validateFrequency CUSTOM customDetails = Inr ()"
    using validRule_custom[of None] by (simp add: validRule_def exHabit_def)
  have vw: "validateFrequency WEEKLY weeklyDetails = Inr ()"
    using validRule_weekly[of None] by (simp add: validRule_def exHabit_def)
  have b: "validateFrequency (h_frequencyType ?h) (h_frequencyDetails ?h) = Inr ()"
    "validateFrequency (h_frequencyType ?n) (h_frequencyDetails ?n) = Inr ()"
    "validateFrequency (h_frequencyType ?w) (h_frequencyDetails ?w) = Inr ()"
    using vc vw by (simp_all add: exHabit_def)
  have s: "h_nextOccurrenceAt ?h = Some 543600000" by (simp add: exHabit_def)
  have c: "nextOccurrenceAligned 0 ?h" by code_simp
  have cn: "nextOccurrenceAligned 0 ?n" by code_simp
  have g: "getNextOccurrence 0 ?h 648000000 = Inr (Some 802800000)" by code_simp
  have t: "h_frequencyType ?w \<noteq> CUSTOM" by (simp add: exHabit_def)
  from nextOccurrence_date_is_scheduled[OF a(1) b(1), of 0 648000000]
    nextOccurrence_date_is_scheduled[OF a(2) b(2), of 0 388800000]
    nextOccurrence_date_is_scheduled[OF a(3) b(3), of 0 388800000]
    a vc vw s c cn g t
  show ?thesis by blast
qed

text \<open>
  In a zone with daylight saving the two local midnights are not a whole number of days
  apart. For New York, midnight of 2024-03-01 is 05:00 UTC and midnight of 2024-03-13 is
  04:00 UTC; the clocks go forward on 2024-03-10. The two midnights are 11 days and 23
  hours apart, so that the source counts 11 days for a date that is 12 calendar days
  after the first, and 11 is not a multiple of an interval of 3 days.
\<close>

lemma floorDays_across_daylight_saving_start:
  "floorDays 1709269200000 1710302400000 = 11
   \<and> floorDays 1709269200000 1710302400000 mod 3 \<noteq> 0"
  by (simp add: floorDays_def msPerDay_def)

section \<open>The habit lifecycle\<close>

text \<open>
  Claim C3. The claim requires that an \<open>updateHabit\<close> which changes the status to PAUSED
  or ARCHIVED clears \<open>nextOccurrenceAt\<close>. Evaluated on an ACTIVE habit whose
  \<open>nextOccurrenceAt\<close> is set, \<open>updateHabit\<close> with only \<open>status = PAUSED\<close> returns the
  habit PAUSED with \<open>nextOccurrenceAt\<close> unchanged, where \<open>pauseHabit\<close> on the same state
  returns it PAUSED with \<open>nextOccurrenceAt\<close> cleared.
\<close>

theorem updateHabit_pause_keeps_nextOccurrenceAt:
  "map_sum id (\<lambda>h. (h_status h, h_nextOccurrenceAt h))
     (fst (updateHabit 0 (exState (exHabit DAILY dailyDetails (Some 457200000)) []) 7 1
             (statusOnly PAUSED) 388800000))
     = Inr (PAUSED, Some 457200000)
   \<and> map_sum id (\<lambda>h. (h_status h, h_nextOccurrenceAt h))
     (fst (pauseHabit (exState (exHabit DAILY dailyDetails (Some 457200000)) []) 7 1))
     = Inr (PAUSED, None)"
  by code_simp

theorem updateHabit_pause_keeps_nextOccurrenceAt_witness:
  "map_sum id h_nextOccurrenceAt
     (fst (updateHabit 0 (exState (exHabit DAILY dailyDetails (Some 457200000)) []) 7 1
             (statusOnly PAUSED) 388800000))
     = Inr (Some 457200000)"
proof -
  have "map_sum id (\<lambda>h. (h_status h, h_nextOccurrenceAt h))
     (fst (updateHabit 0 (exState (exHabit DAILY dailyDetails (Some 457200000)) []) 7 1
             (statusOnly PAUSED) 388800000))
     = Inr (PAUSED, Some 457200000)"
    using updateHabit_pause_keeps_nextOccurrenceAt by (rule conjunct1)
  then show ?thesis
    by (cases "fst (updateHabit 0 (exState (exHabit DAILY dailyDetails (Some 457200000)) []) 7 1
             (statusOnly PAUSED) 388800000)") simp_all
qed

text \<open>
  Claim C8, as stated, fails: the failure of pausing an ARCHIVED habit is not of a kind
  distinct from that of a duplicate completion, and the failure of completing a habit that
  is not active is not of a kind distinct from that of a future-dated completion. Pausing
  an archived habit and completing a date twice both surface status 409; completing a
  paused habit and completing tomorrow's date both surface status 400.
\<close>

theorem error_kinds_not_distinct_counterexample:
  "map_sum statusCode id
     (fst (pauseHabit (exState ((exHabit DAILY dailyDetails None)\<lparr>h_status := ARCHIVED\<rparr>) []) 7 1))
     = Inl (Some 409)
   \<and> map_sum statusCode id
     (fst (markComplete 0
        (exState (exHabit DAILY dailyDetails None) [exCompletion 0 388800000 345600000 None])
        1 7 (exDto 345600000) 388800000))
     = Inl (Some 409)
   \<and> map_sum statusCode id
     (fst (markComplete 0
        (exState ((exHabit DAILY dailyDetails None)\<lparr>h_status := PAUSED\<rparr>) [])
        1 7 (exDto 345600000) 388800000))
     = Inl (Some 400)
   \<and> map_sum statusCode id
     (fst (markComplete 0 (exState (exHabit DAILY dailyDetails None) [])
        1 7 (exDto 432000000) 388800000))
     = Inl (Some 400)"
  by code_simp

text \<open>
  Claim C8, amended. For a habit that the caller owns: pausing or resuming it when it is
  ARCHIVED fails with a \<open>ConflictException\<close>, the class that a duplicate completion
  raises too; completing it when it is not ACTIVE fails with a \<open>BadRequestException\<close>,
  the class that a future-dated completion raises too. Each failure leaves the state
  unchanged, and the failures of one class differ in their messages.
\<close>

theorem state_failures_by_exception_class:
  assumes "findByIdAndUser st habitId userId = Some habit"
  shows "(h_status habit = ARCHIVED \<longrightarrow>
            pauseHabit st userId habitId
              = (Inl (ConflictException ''Cannot pause an archived habit''), st)
            \<and> resumeHabit tz st userId habitId now
              = (Inl (ConflictException ''Cannot resume an archived habit''), st))
       \<and> (h_status habit \<noteq> ACTIVE \<longrightarrow>
            markComplete tz st habitId userId dto now
              = (Inl (BadRequestException ''Cannot complete a paused or archived habit''), st))
       \<and> (h_status habit = ACTIVE \<and> localDay tz now < localDay tz (dto_scheduledFor dto) \<longrightarrow>
            markComplete tz st habitId userId dto now
              = (Inl (BadRequestException ''Cannot complete a habit for a future date''), st))
       \<and> (h_status habit = ACTIVE \<and> localDay tz (dto_scheduledFor dto) \<le> localDay tz now
            \<and> isCompletedForDate tz st habitId (dto_scheduledFor dto) \<longrightarrow>
            markComplete tz st habitId userId dto now
              = (Inl (ConflictException ''Habit already completed for this date''), st))"
  using archived_pause[OF assms] archived_resume[OF assms] not_active_complete[OF assms]
    markComplete_future[OF assms] markComplete_not_future[OF assms]
  by simp

theorem state_failures_by_exception_class_witness:
  "findByIdAndUser (exState ((exHabit DAILY dailyDetails None)\<lparr>h_status := ARCHIVED\<rparr>) []) 1 7
     = Some ((exHabit DAILY dailyDetails None)\<lparr>h_status := ARCHIVED\<rparr>)
   \<and> h_status ((exHabit DAILY dailyDetails None)\<lparr>h_status := ARCHIVED\<rparr>) = ARCHIVED
   \<and> pauseHabit (exState ((exHabit DAILY dailyDetails None)\<lparr>h_status := ARCHIVED\<rparr>) []) 7 1
       = (Inl (ConflictException ''Cannot pause an archived habit''),
          exState ((exHabit DAILY dailyDetails None)\<lparr>h_status := ARCHIVED\<rparr>) [])
   \<and> resumeHabit 0 (exState ((exHabit DAILY dailyDetails None)\<lparr>h_status := ARCHIVED\<rparr>) []) 7 1
         388800000
       = (Inl (ConflictException ''Cannot resume an archived habit''),
          exState ((exHabit DAILY dailyDetails None)\<lparr>h_status := ARCHIVED\<rparr>) [])
   \<and> markComplete 0 (exState ((exHabit DAILY dailyDetails None)\<lparr>h_status := ARCHIVED\<rparr>) []) 1 7
         (exDto 345600000) 388800000
       = (Inl (BadRequestException ''Cannot complete a paused or archived habit''),
          exState ((exHabit DAILY dailyDetails None)\<lparr>h_status := ARCHIVED\<rparr>) [])"
proof -
  let ?h = "(exHabit DAILY dailyDetails None)\<lparr>h_status := ARCHIVED\<rparr>"
  have f: "findByIdAndUser (exState ?h []) 1 7 = Some ?h" by code_simp
  have a: "h_status ?h = ARCHIVED" by simp
  from state_failures_by_exception_class
      [OF f, where tz = 0 and now = 388800000 and dto = "exDto 345600000"] f a
  show ?thesis by simp
qed

section \<open>The completion tracker\<close>

text \<open>
  Claim C4. When \<open>markComplete\<close> for a date has succeeded on a habit with a valid rule
  and \<open>undoCompletion\<close> of the completion it returned has succeeded, a later
  \<open>markComplete\<close> for the same date succeeds again and stores a new completion that is
  not undone: the undone completion no longer counts in the duplicate check.
\<close>

theorem markComplete_undo_markComplete:
  assumes "findByIdAndUser st habitId userId = Some habit"
    and "validRule habit"
    and "markComplete tz st habitId userId dto now1 = (Inr c, st1)"
    and "undoCompletion st1 (c_id c) userId now2 = (Inr (), st2)"
    and "now1 \<le> now3"
  shows "\<exists>c' st3. markComplete tz st2 habitId userId dto now3 = (Inr c', st3)
           \<and> completions st3 = completions st2 @ [c']
           \<and> c_scheduledFor c' = dto_scheduledFor dto \<and> c_undoneAt c' = None"
  using complete_undo_complete[OF assms] .

theorem markComplete_undo_markComplete_witness:
  "findByIdAndUser (exState (exHabit DAILY dailyDetails None) []) 1 7
     = Some (exHabit DAILY dailyDetails None)
   \<and> validRule (exHabit DAILY dailyDetails None)
   \<and> markComplete 0 (exState (exHabit DAILY dailyDetails None) []) 1 7 (exDto 345600000)
        388800000
       = (Inr (exCompletion 0 388800000 345600000 None),
          exState (exHabit DAILY dailyDetails (Some 457200000))
            [exCompletion 0 388800000 345600000 None])
   \<and> undoCompletion
        (exState (exHabit DAILY dailyDetails (Some 457200000))
           [exCompletion 0 388800000 345600000 None])
        (c_id (exCompletion 0 388800000 345600000 None)) 7 388900000
       = (Inr (),
          exState (exHabit DAILY dailyDetails (Some 457200000))
            [exCompletion 0 388800000 345600000 (Some 388900000)])
   \<and> (388800000 :: int) \<le> 389000000
   \<and> (\<exists>c' st3.
         markComplete 0
           (exState (exHabit DAILY dailyDetails (Some 457200000))
              [exCompletion 0 388800000 345600000 (Some 388900000)])
           1 7 (exDto 345600000) 389000000 = (Inr c', st3)
         \<and> completions st3 =
             completions (exState (exHabit DAILY dailyDetails (Some 457200000))
                [exCompletion 0 388800000 345600000 (Some 388900000)]) @ [c']
         \<and> c_scheduledFor c' = dto_scheduledFor (exDto 345600000) \<and> c_undoneAt c' = None)"
proof -
  have f: "findByIdAndUser (exState (exHabit DAILY dailyDetails None) []) 1 7
             = Some (exHabit DAILY dailyDetails None)" by code_simp
  have v: "validRule (exHabit DAILY dailyDetails None)" by (rule validRule_daily)
  have m: "markComplete 0 (exState (exHabit DAILY dailyDetails None) []) 1 7 (exDto 345600000)
             388800000
           = (Inr (exCompletion 0 388800000 345600000 None),
              exState (exHabit DAILY dailyDetails (Some 457200000))
                [exCompletion 0 388800000 345600000 None])" by code_simp
  have u: "undoCompletion
             (exState (exHabit DAILY dailyDetails (Some 457200000))
                [exCompletion 0 388800000 345600000 None])
             (c_id (exCompletion 0 388800000 345600000 None)) 7 388900000
           = (Inr (),
              exState (exHabit DAILY dailyDetails (Some 457200000))
                [exCompletion 0 388800000 345600000 (Some 388900000)])" by code_simp
  have t: "(388800000 :: int) \<le> 389000000" by simp
  from markComplete_undo_markComplete[OF f v m u t] f v m u t show ?thesis by blast
qed

text \<open>
  Claim C6. The claim requires that \<open>markComplete\<close> with tomorrow's date fails, and the
  source says the same (``Validate date is today or in the past''). In a process zone
  west of UTC it does not fail: the date-only string is parsed as midnight UTC, which lies
  in the previous local day, so that the local day that \<open>markComplete\<close> compares with
  today's is today's. For a habit that the caller owns, that is ACTIVE and has a valid
  rule, and an offset west of UTC, \<open>markComplete\<close> with the date of tomorrow accepts
  and stores the completion, unless one that is not undone exists for it.
\<close>

theorem markComplete_accepts_tomorrow_west_of_UTC:
  assumes "findByIdAndUser st habitId userId = Some habit"
    and "h_status habit = ACTIVE"
    and "validRule habit"
    and "- msPerDay \<le> tz" and "tz < 0"
    and "dto_scheduledFor dto = newDateFromDateOnly (localDay tz now + 1)"
    and "\<not> isCompletedForDate tz st habitId (dto_scheduledFor dto)"
  shows "\<exists>c st'. markComplete tz st habitId userId dto now = (Inr c, st')
           \<and> completions st' = completions st @ [c]
           \<and> c_scheduledFor c = newDateFromDateOnly (localDay tz now + 1)
           \<and> c_undoneAt c = None"
proof -
  have "localDay tz (dto_scheduledFor dto) \<le> localDay tz now"
    unfolding assms(6) localDay_dateOnly_west[OF assms(4,5)] by simp
  from markComplete_accepts[OF assms(1,2,3) this assms(7)] assms(6) show ?thesis by auto
qed

theorem markComplete_accepts_tomorrow_west_of_UTC_witness:
  "findByIdAndUser (exState (exHabit DAILY dailyDetails None) []) 1 7
     = Some (exHabit DAILY dailyDetails None)
   \<and> h_status (exHabit DAILY dailyDetails None) = ACTIVE
   \<and> validRule (exHabit DAILY dailyDetails None)
   \<and> - msPerDay \<le> - 28800000 \<and> (- 28800000 :: int) < 0
   \<and> localDay (- 28800000) 417600000 = 4
   \<and> dto_scheduledFor (exDto (newDateFromDateOnly 5))
       = newDateFromDateOnly (localDay (- 28800000) 417600000 + 1)
   \<and> \<not> isCompletedForDate (- 28800000) (exState (exHabit DAILY dailyDetails None) []) 1
         (dto_scheduledFor (exDto (newDateFromDateOnly 5)))
   \<and> markComplete (- 28800000) (exState (exHabit DAILY dailyDetails None) []) 1 7
        (exDto (newDateFromDateOnly 5)) 417600000
       = (Inr (exCompletion 0 417600000 432000000 None),
          exState (exHabit DAILY dailyDetails (Some 486000000))
            [exCompletion 0 417600000 432000000 None])
   \<and> (\<exists>c st'. markComplete (- 28800000) (exState (exHabit DAILY dailyDetails None) []) 1 7
                  (exDto (newDateFromDateOnly 5)) 417600000 = (Inr c, st')
         \<and> completions st' = completions (exState (exHabit DAILY dailyDetails None) []) @ [c]
         \<and> c_scheduledFor c = newDateFromDateOnly (localDay (- 28800000) 417600000 + 1)
         \<and> c_undoneAt c = None)"
proof -
  let ?st = "exState (exHabit DAILY dailyDetails None) []"
  let ?dto = "exDto (newDateFromDateOnly 5)"
  have f: "findByIdAndUser ?st 1 7 = Some (exHabit DAILY dailyDetails None)" by code_simp
  have a: "h_status (exHabit DAILY dailyDetails None) = ACTIVE" by code_simp
  have v: "validRule (exHabit DAILY dailyDetails None)" by (rule validRule_daily)
  have z1: "- msPerDay \<le> - 28800000" by code_simp
  have z2: "(- 28800000 :: int) < 0" by simp
  have l: "localDay (- 28800000) 417600000 = 4" by code_simp
  have e: "dto_scheduledFor ?dto = newDateFromDateOnly (localDay (- 28800000) 417600000 + 1)"
    by code_simp
  have n: "\<not> isCompletedForDate (- 28800000) ?st 1 (dto_scheduledFor ?dto)" by code_simp
  have m: "markComplete (- 28800000) ?st 1 7 ?dto 417600000
             = (Inr (exCompletion 0 417600000 432000000 None),
                exState (exHabit DAILY dailyDetails (Some 486000000))
                  [exCompletion 0 417600000 432000000 None])" by code_simp
  from markComplete_accepts_tomorrow_west_of_UTC[OF f a v z1 z2 e n] f a v z1 z2 l e n m
  show ?thesis by blast
qed

text \<open>
  Claim C7. For a completion that the caller owns and that is not undone:
  \<open>undoCompletion\<close> fails with the \<open>BadRequestException\<close> ``Cannot undo completion
  after 24 hours'' when \<open>now - completedAt\<close> exceeds 24 hours, and then leaves the
  state unchanged (\<open>undoneAt\<close> stays \<open>null\<close>); otherwise it succeeds, the table keeps
  the same rows (none is deleted), and the completion is found again with \<open>undoneAt\<close>
  set to \<open>now\<close>.
\<close>

theorem undoCompletion_window:
  assumes "findCompletionByIdAndUser st completionId userId = Some c"
    and "c_undoneAt c = None"
  shows "(now - c_completedAt c > 24 * 3600000 \<longrightarrow>
            undoCompletion st completionId userId now
              = (Inl (BadRequestException ''Cannot undo completion after 24 hours''), st))
       \<and> (now - c_completedAt c \<le> 24 * 3600000 \<longrightarrow>
            undoCompletion st completionId userId now
              = (Inr (), markUndone st completionId now)
            \<and> map c_id (completions (markUndone st completionId now))
                = map c_id (completions st)
            \<and> habits (markUndone st completionId now) = habits st
            \<and> findCompletionByIdAndUser (markUndone st completionId now) completionId userId
                = Some (c\<lparr>c_undoneAt := Some now\<rparr>))"
  using undoCompletion_expired[OF assms] undoCompletion_in_window[OF assms]
    markUndone_ids markUndone_habits markUndone_find[OF assms(1)]
  by blast

theorem undoCompletion_window_witness:
  "findCompletionByIdAndUser
     (exState (exHabit DAILY dailyDetails None) [exCompletion 0 0 0 None]) 0 7
     = Some (exCompletion 0 0 0 None)
   \<and> c_undoneAt (exCompletion 0 0 0 None) = None
   \<and> 90000000 - c_completedAt (exCompletion 0 0 0 None) > 24 * 3600000
   \<and> undoCompletion (exState (exHabit DAILY dailyDetails None) [exCompletion 0 0 0 None]) 0 7
        90000000
       = (Inl (BadRequestException ''Cannot undo completion after 24 hours''),
          exState (exHabit DAILY dailyDetails None) [exCompletion 0 0 0 None])
   \<and> 86400000 - c_completedAt (exCompletion 0 0 0 None) \<le> 24 * 3600000
   \<and> undoCompletion (exState (exHabit DAILY dailyDetails None) [exCompletion 0 0 0 None]) 0 7
        86400000
       = (Inr (),
          markUndone (exState (exHabit DAILY dailyDetails None) [exCompletion 0 0 0 None]) 0
            86400000)
   \<and> findCompletionByIdAndUser
        (markUndone (exState (exHabit DAILY dailyDetails None) [exCompletion 0 0 0 None]) 0
           86400000) 0 7
       = Some ((exCompletion 0 0 0 None)\<lparr>c_undoneAt := Some 86400000\<rparr>)"
proof -
  have f: "findCompletionByIdAndUser
             (exState (exHabit DAILY dailyDetails None) [exCompletion 0 0 0 None]) 0 7
           = Some (exCompletion 0 0 0 None)" by code_simp
  have n: "c_undoneAt (exCompletion 0 0 0 None) = None" by code_simp
  have l1: "90000000 - c_completedAt (exCompletion 0 0 0 None) > 24 * 3600000" by code_simp
  have l2: "86400000 - c_completedAt (exCompletion 0 0 0 None) \<le> 24 * 3600000" by code_simp
  from undoCompletion_window[OF f n, where now = 90000000]
    undoCompletion_window[OF f n, where now = 86400000]
    f n l1 l2
  show ?thesis by blast
qed

text \<open>
  Claim C10. \<open>markComplete\<close> does not consult the recurrence rule: for a habit that the
  caller owns, that is ACTIVE and has a valid rule, a completion is accepted and stored
  for any calendar date not after today's for which no completion that is not undone
  exists, whether or not \<open>isScheduledForDate\<close> holds for that date: for example a
  Tuesday, for a WEEKLY habit of Monday, Wednesday and Friday.
\<close>

theorem markComplete_ignores_schedule:
  assumes "findByIdAndUser st habitId userId = Some habit"
    and "h_status habit = ACTIVE"
    and "validRule habit"
    and "localDay tz (dto_scheduledFor dto) \<le> localDay tz now"
    and "\<not> isCompletedForDate tz st habitId (dto_scheduledFor dto)"
  shows "\<exists>c st'. markComplete tz st habitId userId dto now = (Inr c, st')
           \<and> completions st' = completions st @ [c]
           \<and> c_habitId c = habitId \<and> c_userId c = userId
           \<and> c_scheduledFor c = dto_scheduledFor dto
           \<and> c_completedAt c = now \<and> c_undoneAt c = None"
  using markComplete_accepts[OF assms] by blast

theorem markComplete_ignores_schedule_witness:
  "findByIdAndUser (exState (exHabit WEEKLY weeklyDetails None) []) 1 7
     = Some (exHabit WEEKLY weeklyDetails None)
   \<and> h_status (exHabit WEEKLY weeklyDetails None) = ACTIVE
   \<and> validRule (exHabit WEEKLY weeklyDetails None)
   \<and> localDay 0 (dto_scheduledFor (exDto 432000000)) \<le> localDay 0 561600000
   \<and> \<not> isCompletedForDate 0 (exState (exHabit WEEKLY weeklyDetails None) []) 1
         (dto_scheduledFor (exDto 432000000))
   \<and> getDay 0 432000000 = 2
   \<and> isScheduledForDate 0 (exHabit WEEKLY weeklyDetails None) 432000000 = Inr False
   \<and> (\<exists>c st'. markComplete 0 (exState (exHabit WEEKLY weeklyDetails None) []) 1 7
                  (exDto 432000000) 561600000 = (Inr c, st')
         \<and> completions st' = completions (exState (exHabit WEEKLY weeklyDetails None) []) @ [c]
         \<and> c_habitId c = 1 \<and> c_userId c = 7
         \<and> c_scheduledFor c = dto_scheduledFor (exDto 432000000)
         \<and> c_completedAt c = 561600000 \<and> c_undoneAt c = None)"
proof -
  have f: "findByIdAndUser (exState (exHabit WEEKLY weeklyDetails None) []) 1 7
             = Some (exHabit WEEKLY weeklyDetails None)" by code_simp
  have a: "h_status (exHabit WEEKLY weeklyDetails None) = ACTIVE" by code_simp
  have v: "validRule (exHabit WEEKLY weeklyDetails None)" by (rule validRule_weekly)
  have l: "localDay 0 (dto_scheduledFor (exDto 432000000)) \<le> localDay 0 561600000"
    by code_simp
  have n: "\<not> isCompletedForDate 0 (exState (exHabit WEEKLY weeklyDetails None) []) 1
             (dto_scheduledFor (exDto 432000000))" by code_simp
  have g: "getDay 0 432000000 = 2" by code_simp
  have s: "isScheduledForDate 0 (exHabit WEEKLY weeklyDetails None) 432000000 = Inr False"
    by code_simp
  from markComplete_ignores_schedule[OF f a v l n] f a v l n g s show ?thesis by blast
qed

section \<open>The streak calculator\<close>



section \<open>The frequency validator\<close>

text \<open>
  Claim C9, as stated, fails. For a WEEKLY structure with an empty set of days and the
  malformed time \<open>25:99\<close>, two rules are violated, and the failure of
  \<open>validateFrequency\<close> reports the first of them only.
\<close>

theorem validateFrequency_reports_one_rule_counterexample:
  "reportedRules (validateFrequency WEEKLY
      \<lparr>days = Some [], time = Some ''25:99'', count = None, unit = None\<rparr>)
     = [''At least one day must be selected for weekly habits'']
   \<and> spec_violatedRules WEEKLY
      \<lparr>days = Some [], time = Some ''25:99'', count = None, unit = None\<rparr>
     = [''At least one day must be selected for weekly habits'',
        ''Time must be in HH:mm format'']"
  by code_simp

text \<open>
  Claim C9, amended. For every frequency kind and raw parameter structure, the failure of
  \<open>validateFrequency\<close> reports exactly the first violated rule, in the order in which
  the source checks the rules; it succeeds exactly when no rule is violated.
\<close>

theorem validateFrequency_reports_first_violation:
  "reportedRules (validateFrequency type details) = take 1 (spec_violatedRules type details)
   \<and> ((validateFrequency type details = Inr ()) = (spec_violatedRules type details = []))"
proof -
  have r: "reportedRules (validateFrequency type details)
             = take 1 (spec_violatedRules type details)"
    by (rule reported_first_rule)
  have "(validateFrequency type details = Inr ()) = (spec_violatedRules type details = [])"
  proof
    assume "validateFrequency type details = Inr ()"
    then have "take 1 (spec_violatedRules type details) = []"
      using r by (simp add: reportedRules_def)
    then show "spec_violatedRules type details = []" by simp
  next
    assume "spec_violatedRules type details = []"
    then have e: "reportedRules (validateFrequency type details) = []" using r by simp
    from validateFrequency_error_shape[of type details] show "validateFrequency type details = Inr ()"
    proof
      assume "validateFrequency type details = Inr ()"
      then show ?thesis .
    next
      assume "\<exists>m. validateFrequency type details = Inl (BadRequestException m)"
      with e show ?thesis by (auto simp: reportedRules_def)
    qed
  qed
  with r show ?thesis by simp
qed

theorem validateFrequency_reports_first_violation_witness:
  "reportedRules (validateFrequency CUSTOM
      \<lparr>days = None, time = Some ''7pm'', count = Some 400, unit = Some ''months''\<rparr>)
     = [''Count must be between 1 and 365'']
   \<and> spec_violatedRules CUSTOM
      \<lparr>days = None, time = Some ''7pm'', count = Some 400, unit = Some ''months''\<rparr>
     = [''Count must be between 1 and 365'', ''Unit must be \"days\" or \"weeks\"'',
        ''Time must be in HH:mm format'']"
proof -
  have v: "spec_violatedRules CUSTOM
      \<lparr>days = None, time = Some ''7pm'', count = Some 400, unit = Some ''months''\<rparr>
     = [''Count must be between 1 and 365'', ''Unit must be \"days\" or \"weeks\"'',
        ''Time must be in HH:mm format'']" by code_simp
  from validateFrequency_reports_first_violation
    [of CUSTOM "\<lparr>days = None, time = Some ''7pm'', count = Some 400, unit = Some ''months''\<rparr>"]
  show ?thesis unfolding v by simp
qed

end
